theory Spec2Isabelle
  imports
    Complex_Main
    "HOL-Library.Sublist"
    "HOL-Library.Char_ord"
    "HOL-Library.List_Lexorder"
    "HOL-Library.AList"
begin

section \<open>Strings and the patterns of the log parser\<close>

text \<open>
  Log lines, addresses and dictionary keys are Python \<open>str\<close> values; they are modelled as
  \<open>string\<close> (byte lists, UTF-8). Python floats are modelled as exact reals, Python ints
  that only count upwards as \<open>nat\<close>. The character classes \<open>\d\<close>, \<open>\s\<close> and
  \<open>str.lower\<close> are modelled on their ASCII range.
\<close>

text \<open>\<open>pat in line\<close>\<close>

fun contains :: "string \<Rightarrow> string \<Rightarrow> bool" where
  "contains pat [] = (pat = [])"
| "contains pat (c # cs) = (prefix pat (c # cs) \<or> contains pat cs)"

definition is_digit :: "char \<Rightarrow> bool" where
  "is_digit c = (48 \<le> (of_char c :: nat) \<and> (of_char c :: nat) \<le> 57)"

definition is_upper :: "char \<Rightarrow> bool" where
  "is_upper c = (65 \<le> (of_char c :: nat) \<and> (of_char c :: nat) \<le> 90)"

definition is_lower :: "char \<Rightarrow> bool" where
  "is_lower c = (97 \<le> (of_char c :: nat) \<and> (of_char c :: nat) \<le> 122)"

text \<open>The class \<open>[A-Za-z0-9]\<close>.\<close>

definition is_alnum :: "char \<Rightarrow> bool" where
  "is_alnum c = (is_upper c \<or> is_lower c \<or> is_digit c)"

text \<open>The class \<open>\s\<close>, and the characters \<open>str.strip()\<close> removes.\<close>

definition is_space :: "char \<Rightarrow> bool" where
  "is_space c = ((9 \<le> (of_char c :: nat) \<and> (of_char c :: nat) \<le> 13)
     \<or> (28 \<le> (of_char c :: nat) \<and> (of_char c :: nat) \<le> 32))"

definition lower_char :: "char \<Rightarrow> char" where
  "lower_char c = (if is_upper c then char_of ((of_char c :: nat) + 32) else c)"

text \<open>\<open>line.lower()\<close>\<close>

definition lower :: "string \<Rightarrow> string" where
  "lower s = map lower_char s"

text \<open>\<open>line.strip()\<close>\<close>

definition strip :: "string \<Rightarrow> string" where
  "strip s = rev (dropWhile is_space (rev (dropWhile is_space s)))"

text \<open>\<open>int(g)\<close> for a group \<open>g\<close> matched by \<open>\d+\<close>.\<close>

definition digit_val :: "char \<Rightarrow> nat" where
  "digit_val c = (of_char c :: nat) - 48"

definition nat_of_digits :: "string \<Rightarrow> nat" where
  "nat_of_digits ds = foldl (\<lambda>n c. 10 * n + digit_val c) 0 ds"

text \<open>\<open>float(g)\<close> for a group \<open>g\<close> matched by \<open>\d+\.?\d*\<close>.\<close>

definition py_float :: "string \<Rightarrow> real" where
  "py_float txt =
     (let ip = takeWhile is_digit txt;
          fp = takeWhile is_digit (drop 1 (dropWhile is_digit txt))
      in real (nat_of_digits ip) + real (nat_of_digits fp) / 10 ^ length fp)"

text \<open>
  \<open>re.search(p, line)\<close> tries the pattern at every start position from the left and
  returns the first match. A pattern is given by its matcher anchored at a position. In
  every pattern of the parser each repetition is a maximal run of a character class that is
  followed by a character outside the class, so the anchored match is unique.
\<close>

fun re_search :: "(string \<Rightarrow> 'a option) \<Rightarrow> string \<Rightarrow> 'a option" where
  "re_search m [] = m []"
| "re_search m (c # cs) = (case m (c # cs) of Some r \<Rightarrow> Some r | None \<Rightarrow> re_search m cs)"

text \<open>The patterns \<open>from=<([^>]*)>\<close> and \<open>to=<([^>]*)>\<close>: \<open>key\<close> is the text up to \<open><\<close>.\<close>

definition m_angle :: "string \<Rightarrow> string \<Rightarrow> string option" where
  "m_angle key s =
     (if prefix key s then
        (let rest = drop (length key) s
         in if CHR ''>'' \<in> set rest then Some (takeWhile (\<lambda>c. c \<noteq> CHR ''>'') rest) else None)
      else None)"

definition search_from :: "string \<Rightarrow> string option" where
  "search_from line = re_search (m_angle ''from=<'') line"

definition search_to :: "string \<Rightarrow> string option" where
  "search_to line = re_search (m_angle ''to=<'') line"

text \<open>The pattern \<open>delay=(\d+\.?\d*)\<close>; the result is the group.\<close>

definition delay_group :: "string \<Rightarrow> string" where
  "delay_group rest =
     (let ip = takeWhile is_digit rest
      in case dropWhile is_digit rest of
           [] \<Rightarrow> ip
         | c # r \<Rightarrow> if c = CHR ''.'' then ip @ ''.'' @ takeWhile is_digit r else ip)"

definition m_delay :: "string \<Rightarrow> string option" where
  "m_delay s =
     (if prefix ''delay='' s then
        (case drop 6 s of
           [] \<Rightarrow> None
         | d # r \<Rightarrow> if is_digit d then Some (delay_group (d # r)) else None)
      else None)"

definition search_delay :: "string \<Rightarrow> string option" where
  "search_delay line = re_search m_delay line"

text \<open>
  The pattern \<open>(\d{4}-\d{2}-\d{2})T(\d{2}):\<close> of \<open>re.match\<close> (anchored at the start of the
  line); the result is \<open>int\<close> of the second group, the hour.
\<close>

definition time_match :: "string \<Rightarrow> nat option" where
  "time_match line =
     (if 14 \<le> length line
         \<and> list_all is_digit (take 4 line) \<and> line ! 4 = CHR ''-''
         \<and> list_all is_digit (take 2 (drop 5 line)) \<and> line ! 7 = CHR ''-''
         \<and> list_all is_digit (take 2 (drop 8 line)) \<and> line ! 10 = CHR ''T''
         \<and> list_all is_digit (take 2 (drop 11 line)) \<and> line ! 13 = CHR '':''
      then Some (nat_of_digits (take 2 (drop 11 line)))
      else None)"

text \<open>The pattern \<open>postfix/smtp\[[^\]]+\]:\s+([A-Za-z0-9]+):\<close>; the result is the group.\<close>

definition m_smtp_id :: "string \<Rightarrow> string option" where
  "m_smtp_id s =
     (if prefix ''postfix/smtp['' s then
        (let r0 = drop 13 s;
             pid = takeWhile (\<lambda>c. c \<noteq> CHR '']'') r0;
             r1 = dropWhile (\<lambda>c. c \<noteq> CHR '']'') r0;
             r2 = drop 2 r1;
             ws = takeWhile is_space r2;
             r3 = dropWhile is_space r2;
             mid = takeWhile is_alnum r3;
             r4 = dropWhile is_alnum r3
         in if pid \<noteq> [] \<and> prefix '']:'' r1 \<and> ws \<noteq> [] \<and> mid \<noteq> [] \<and> prefix '':'' r4
            then Some mid else None)
      else None)"

definition search_smtp_id :: "string \<Rightarrow> string option" where
  "search_smtp_id line = re_search m_smtp_id line"

text \<open>
  The pattern \<open>([A-Za-z0-9]+): from=<[^>]*>, size=(\d+)\<close> of the first pass; the result is
  the message id and \<open>int\<close> of the size.
\<close>

definition m_size :: "string \<Rightarrow> (string \<times> nat) option" where
  "m_size s =
     (let mid = takeWhile is_alnum s;
          r1 = dropWhile is_alnum s;
          r2 = dropWhile (\<lambda>c. c \<noteq> CHR ''>'') (drop 8 r1);
          ds = takeWhile is_digit (drop 8 r2)
      in if mid \<noteq> [] \<and> prefix '': from=<'' r1 \<and> prefix ''>, size='' r2 \<and> ds \<noteq> []
         then Some (mid, nat_of_digits ds) else None)"

definition search_size :: "string \<Rightarrow> (string \<times> nat) option" where
  "search_size line = re_search m_size line"

text \<open>
  The pattern \<open>user=([^,\\s]+)\<close>, written as a raw string in the source: the class excludes
  the comma, the backslash and the letter \<open>s\<close>.
\<close>

definition m_user :: "string \<Rightarrow> string option" where
  "m_user s =
     (if prefix ''user='' s then
        (let g = takeWhile (\<lambda>c. c \<noteq> CHR '','' \<and> c \<noteq> CHR 0x5C \<and> c \<noteq> CHR ''s'') (drop 5 s)
         in if g \<noteq> [] then Some g else None)
      else None)"

definition search_user :: "string \<Rightarrow> string option" where
  "search_user line = re_search m_user line"

text \<open>\<open>get_domain\<close>: the text after the last \<open>@\<close>, or \<open>unknown\<close>.\<close>

definition get_domain :: "string \<Rightarrow> string" where
  "get_domain email =
     (if email = [] \<or> CHR ''@'' \<notin> set email then ''unknown''
      else rev (takeWhile (\<lambda>c. c \<noteq> CHR ''@'') (rev email)))"

section \<open>Dictionaries and counters\<close>

text \<open>
  A Python \<open>dict\<close> keeps its keys in insertion order; it is modelled as an association
  list. \<open>d[k] = v\<close> is \<open>AList.update k v d\<close>: it replaces the value in place or appends a
  new pair. A \<open>Counter\<close> reads a missing key as \<open>0\<close>.
\<close>

definition count_of :: "('k \<times> nat) list \<Rightarrow> 'k \<Rightarrow> nat" where
  "count_of c k = (case map_of c k of None \<Rightarrow> 0 | Some n \<Rightarrow> n)"

text \<open>\<open>c[k] += 1\<close>\<close>

definition counter_inc :: "'k \<Rightarrow> ('k \<times> nat) list \<Rightarrow> ('k \<times> nat) list" where
  "counter_inc k c = AList.update k (count_of c k + 1) c"

section \<open>The log source reader\<close>

datatype py_error =
    PermissionError
  | FileNotFoundError
  | IsADirectoryError
  | UnicodeDecodeError
  | BadGzipFile
  | OSError
  | ZeroDivisionError
  | TypeError
  | AttributeError

text \<open>
  What opening and reading a path does: \<open>Missing\<close> raises \<open>FileNotFoundError\<close> on opening;
  \<open>Readable ls\<close> yields the lines \<open>ls\<close> (after decompression for a \<open>.gz\<close> path);
  \<open>Failing ls e\<close> yields the lines \<open>ls\<close> and then raises \<open>e\<close> (with \<open>ls = []\<close> when opening
  itself fails).
\<close>

datatype log_file = Missing | Readable "string list" | Failing "string list" py_error

type_synonym filesystem = "string \<Rightarrow> log_file"

text \<open>
  \<open>log_lines_today\<close> is a generator: the result is the lines it yields and the exception
  that ends it, if any. Only \<open>FileNotFoundError\<close> is caught.
\<close>

definition log_lines_today :: "filesystem \<Rightarrow> string \<Rightarrow> string \<Rightarrow> string list \<times> py_error option" where
  "log_lines_today files logfile today =
     (case files logfile of
        Missing \<Rightarrow> ([], None)
      | Readable ls \<Rightarrow> (filter (prefix today) ls, None)
      | Failing ls e \<Rightarrow> (filter (prefix today) ls, Some e))"

text \<open>
  The three nested \<open>for\<close> loops of each pass of \<open>main\<close>. Nothing in \<open>main\<close> catches an
  exception of the generator, so it ends the loops and the run.
\<close>

definition for_lines :: "('s \<Rightarrow> string \<Rightarrow> 's) \<Rightarrow> string list \<times> py_error option \<Rightarrow> 's \<Rightarrow> py_error + 's" where
  "for_lines body gen st =
     (case snd gen of
        None \<Rightarrow> Inr (foldl body st (fst gen))
      | Some e \<Rightarrow> Inl e)"

fun for_dates :: "('s \<Rightarrow> string \<Rightarrow> 's) \<Rightarrow> filesystem \<Rightarrow> string \<Rightarrow> string list \<Rightarrow> 's \<Rightarrow> py_error + 's" where
  "for_dates body files logpath [] st = Inr st"
| "for_dates body files logpath (d # ds) st =
     (case for_lines body (log_lines_today files logpath d) st of
        Inl e \<Rightarrow> Inl e
      | Inr st' \<Rightarrow> for_dates body files logpath ds st')"

fun for_paths :: "('s \<Rightarrow> string \<Rightarrow> 's) \<Rightarrow> filesystem \<Rightarrow> string list \<Rightarrow> string list \<Rightarrow> 's \<Rightarrow> py_error + 's" where
  "for_paths body files [] dates st = Inr st"
| "for_paths body files (p # ps) dates st =
     (case for_dates body files p dates st of
        Inl e \<Rightarrow> Inl e
      | Inr st' \<Rightarrow> for_paths body files ps dates st')"

section \<open>First pass: the correlation index\<close>

text \<open>
  Of the first pass the model keeps \<open>message_sizes\<close> and \<open>auth_failures\<close>. The tables
  \<open>message_clients\<close>, \<open>sending_hosts\<close> and \<open>rate_limit_violations\<close> feed only the rendered
  report and are left out.
\<close>

record index =
  message_sizes :: "(string \<times> nat) list"
  auth_failures :: "(string \<times> nat) list"

definition pass1_line :: "index \<Rightarrow> string \<Rightarrow> index" where
  "pass1_line ix line =
     (let ix1 = (case search_size line of
                   Some (message_id, sz) \<Rightarrow>
                     ix\<lparr>message_sizes := AList.update message_id sz (message_sizes ix)\<rparr>
                 | None \<Rightarrow> ix)
      in if contains ''authentication failed'' (lower line) \<or> contains ''sasl login failed'' (lower line)
         then (case search_user line of
                 Some u \<Rightarrow> ix1\<lparr>auth_failures := counter_inc u (auth_failures ix1)\<rparr>
               | None \<Rightarrow> ix1\<lparr>auth_failures := counter_inc ''unknown'' (auth_failures ix1)\<rparr>)
         else ix1)"

definition index0 :: index where
  "index0 = \<lparr>message_sizes = [], auth_failures = []\<rparr>"

section \<open>Second pass: classification and aggregation\<close>

text \<open>
  The accumulators of the second pass that the aggregate, the alerts and the anomaly
  detectors read. The frequency tables that feed only the rendered report (\<open>senders\<close>,
  \<open>recipients\<close>, the domain tables, \<open>recipient_hosts\<close>, \<open>sender_recipient_pairs\<close>,
  \<open>retry_patterns\<close>, \<open>error_categories\<close>, \<open>size_distribution\<close>, \<open>relay_performance\<close>) are
  left out, and so is \<open>delivery_times\<close>, a copy of \<open>queue_times\<close>;
  \<open>suspicious_senders\<close> counts the same events as \<open>senders\<close>.
\<close>

record accum =
  sent_count :: nat
  deferred_count :: nat
  bounced_count :: nat
  total_size :: nat
  suspicious_senders :: "(string \<times> nat) list"
  errors :: "string list"
  queue_times :: "real list"
  hourly_traffic :: "(nat \<times> nat) list"
  mail_loops :: "string list"

definition accum0 :: accum where
  "accum0 = \<lparr>sent_count = 0, deferred_count = 0, bounced_count = 0, total_size = 0,
     suspicious_senders = [], errors = [], queue_times = [], hourly_traffic = [],
     mail_loops = []\<rparr>"

text \<open>The arrow of the loop description, U+2192 in UTF-8.\<close>

definition arrow :: string where
  "arrow = [CHR 0xE2, CHR 0x86, CHR 0x92]"

text \<open>The mail-loop detector (source lines 489 to 494), for a sent line with a delay.\<close>

definition detect_loop :: "real \<Rightarrow> string option \<Rightarrow> string option \<Rightarrow> string list" where
  "detect_loop queue_time sm rm =
     (case sm of
        None \<Rightarrow> []
      | Some sender \<Rightarrow>
          (case rm of
             None \<Rightarrow> []
           | Some recipient \<Rightarrow>
               if queue_time < 1 / 10 then
                 (if sender = recipient then [''Self-loop: '' @ sender]
                  else if get_domain sender = get_domain recipient \<and> get_domain sender = ''eusd.org''
                  then [''Internal loop: '' @ sender @ '' '' @ arrow @ '' '' @ recipient]
                  else [])
               else []))"

text \<open>The branch \<open>if " status=sent " in line\<close>.\<close>

definition pass2_sent :: "(string \<times> nat) list \<Rightarrow> accum \<Rightarrow> string \<Rightarrow> accum" where
  "pass2_sent sizes st line =
     (let sm = search_from line;
          rm = search_to line;
          st1 = st\<lparr>sent_count := sent_count st + 1\<rparr>;
          st2 = (case time_match line of
                   Some hour \<Rightarrow> st1\<lparr>hourly_traffic := counter_inc hour (hourly_traffic st1)\<rparr>
                 | None \<Rightarrow> st1);
          st3 = (case sm of
                   Some sender \<Rightarrow> st2\<lparr>suspicious_senders := counter_inc sender (suspicious_senders st2)\<rparr>
                 | None \<Rightarrow> st2);
          st4 = (case search_smtp_id line of
                   None \<Rightarrow> st3
                 | Some message_id \<Rightarrow>
                     (case map_of sizes message_id of
                        None \<Rightarrow> st3
                      | Some msg_size \<Rightarrow> st3\<lparr>total_size := total_size st3 + msg_size\<rparr>))
      in case search_delay line of
           None \<Rightarrow> st4
         | Some g \<Rightarrow>
             st4\<lparr>queue_times := queue_times st4 @ [py_float g],
                 mail_loops := mail_loops st4 @ detect_loop (py_float g) sm rm\<rparr>)"

text \<open>The body of the second loop: the \<open>if\<close>/\<open>elif\<close> chain over the status markers.\<close>

definition pass2_line :: "(string \<times> nat) list \<Rightarrow> accum \<Rightarrow> string \<Rightarrow> accum" where
  "pass2_line sizes st line =
     (if contains '' status=sent '' line then pass2_sent sizes st line
      else if contains ''status=deferred'' line then
        st\<lparr>deferred_count := deferred_count st + 1, errors := errors st @ [strip line]\<rparr>
      else if contains ''status=bounced'' line \<or> contains ''status=reject'' line then
        st\<lparr>bounced_count := bounced_count st + 1, errors := errors st @ [strip line]\<rparr>
      else st)"

section \<open>Dates and the history store\<close>

text \<open>
  \<open>datetime.now()\<close> is an input of the run, read once; only its calendar date matters.
  \<open>strftime("%Y-%m-%d")\<close> and the subtraction of a \<open>timedelta\<close> of whole days belong to
  Python's library and are modelled on the proleptic Gregorian calendar, for years of four
  digits.
\<close>

record date =
  year :: nat
  month :: nat
  day :: nat

definition is_leap :: "nat \<Rightarrow> bool" where
  "is_leap y = (if y mod 400 = 0 then True else if y mod 100 = 0 then False else y mod 4 = 0)"

definition days_in_month :: "nat \<Rightarrow> nat \<Rightarrow> nat" where
  "days_in_month y m =
     (if m = 2 then (if is_leap y then 29 else 28)
      else if m = 4 \<or> m = 6 \<or> m = 9 \<or> m = 11 then 30
      else 31)"

definition valid_date :: "date \<Rightarrow> bool" where
  "valid_date d = (1 \<le> month d \<and> month d \<le> 12 \<and> 1 \<le> day d \<and> day d \<le> days_in_month (year d) (month d))"

text \<open>The day before.\<close>

definition pred_day :: "date \<Rightarrow> date" where
  "pred_day d =
     (if 1 < day d then d\<lparr>day := day d - 1\<rparr>
      else if 1 < month d then d\<lparr>month := month d - 1, day := days_in_month (year d) (month d - 1)\<rparr>
      else \<lparr>year = year d - 1, month = 12, day = 31\<rparr>)"

text \<open>\<open>d - timedelta(days=n)\<close>\<close>

fun minus_days :: "date \<Rightarrow> nat \<Rightarrow> date" where
  "minus_days d 0 = d"
| "minus_days d (Suc n) = minus_days (pred_day d) n"

text \<open>Chronological order of calendar dates.\<close>

definition date_le :: "date \<Rightarrow> date \<Rightarrow> bool" where
  "date_le a b =
     (year a < year b
      \<or> (year a = year b \<and> (month a < month b \<or> (month a = month b \<and> day a \<le> day b))))"

definition digit_char :: "nat \<Rightarrow> char" where
  "digit_char n = char_of (48 + n)"

definition pad2 :: "nat \<Rightarrow> string" where
  "pad2 n = [digit_char (n div 10 mod 10), digit_char (n mod 10)]"

definition pad4 :: "nat \<Rightarrow> string" where
  "pad4 n = [digit_char (n div 1000 mod 10), digit_char (n div 100 mod 10),
             digit_char (n div 10 mod 10), digit_char (n mod 10)]"

text \<open>\<open>d.strftime("%Y-%m-%d")\<close>\<close>

definition strftime_ymd :: "date \<Rightarrow> string" where
  "strftime_ymd d = pad4 (year d) @ ''-'' @ pad2 (month d) @ ''-'' @ pad2 (day d)"

text \<open>
  One day's statistics are a dictionary from metric names to numbers; the history is a
  dictionary from date strings to such dictionaries, as \<open>json.load\<close> returns it.
\<close>

type_synonym stats = "(string \<times> real) list"

type_synonym history = "(string \<times> stats) list"

text \<open>
  What \<open>json.load\<close> returns for the history file: a JSON object, taken here with the
  per-day objects of numbers that the tool itself writes, or another JSON value: an array
  or a string of some length, or a number, \<open>true\<close>, \<open>false\<close> or \<open>null\<close>.
\<close>

datatype history_doc = Object history | Array nat | Text nat | Scalar

text \<open>
  The history file: absent (\<open>FileNotFoundError\<close>), not JSON (\<open>JSONDecodeError\<close>), a JSON
  document, or unreadable for another reason.
\<close>

datatype history_store = NoFile | Corrupt | Document history_doc | Unreadable py_error

definition load_historical_data :: "history_store \<Rightarrow> py_error + history_doc" where
  "load_historical_data store =
     (case store of
        NoFile \<Rightarrow> Inr (Object [])
      | Corrupt \<Rightarrow> Inr (Object [])
      | Document doc \<Rightarrow> Inr doc
      | Unreadable e \<Rightarrow> Inl e)"

text \<open>
  What opening the history file for writing and \<open>json.dump\<close> do: they succeed, or raise
  an exception (\<open>PermissionError\<close>, \<open>FileNotFoundError\<close> for a missing directory,
  \<open>IsADirectoryError\<close>, another \<open>OSError\<close>).
\<close>

datatype write_outcome = WriteOk | WriteRaises py_error

text \<open>
  \<open>save_historical_data\<close>. The assignment \<open>history[today_key] = today_stats\<close> raises
  \<open>TypeError\<close> on a JSON value that is not an object. Of the exceptions of the write only
  \<open>PermissionError\<close> is caught; every other one propagates. The result is the document
  written to the history file, or \<open>None\<close> when the \<open>PermissionError\<close> was swallowed, which
  leaves the file as it was.
\<close>

definition save_historical_data ::
    "date \<Rightarrow> write_outcome \<Rightarrow> history_doc \<Rightarrow> stats \<Rightarrow> py_error + history option" where
  "save_historical_data today write doc today_stats =
     (case doc of
        Object history \<Rightarrow>
          (let today_key = strftime_ymd today;
               history1 = AList.update today_key today_stats history;
               cutoff_date = strftime_ymd (minus_days today 30);
               history2 = filter (\<lambda>kv. cutoff_date \<le> fst kv) history1
           in case write of
                WriteOk \<Rightarrow> Inr (Some history2)
              | WriteRaises e \<Rightarrow> if e = PermissionError then Inr None else Inl e)
      | Array n \<Rightarrow> Inl TypeError
      | Text n \<Rightarrow> Inl TypeError
      | Scalar \<Rightarrow> Inl TypeError)"

text \<open>
  The calendar date that a key of the history denotes, as the specification speaks of the
  dates retained: the key read as year, month and day numbers separated by \<open>-\<close>, padded
  or not. The source has no such function: it only compares keys as strings.
\<close>

definition spec_key_date :: "string \<Rightarrow> date option" where
  "spec_key_date k =
     (let y = takeWhile (\<lambda>c. c \<noteq> CHR ''-'') k;
          r1 = drop 1 (dropWhile (\<lambda>c. c \<noteq> CHR ''-'') k);
          m = takeWhile (\<lambda>c. c \<noteq> CHR ''-'') r1;
          d = drop 1 (dropWhile (\<lambda>c. c \<noteq> CHR ''-'') r1)
      in if y \<noteq> [] \<and> m \<noteq> [] \<and> d \<noteq> []
            \<and> list_all is_digit y \<and> list_all is_digit m \<and> list_all is_digit d
         then Some \<lparr>year = nat_of_digits y, month = nat_of_digits m, day = nat_of_digits d\<rparr>
         else None)"

section \<open>The trend engine\<close>

text \<open>The direction glyphs of the source: up arrow, down arrow, right arrow.\<close>

datatype direction = Up | Down | Flat

record trend =
  direction :: direction
  percentage :: real
  recent_avg :: real
  baseline_avg :: real

text \<open>
  \<open>[history[date].get(metric, 0) for date in dates if metric in history[date]]\<close>; every
  date of \<open>dates\<close> is a key of \<open>history\<close>.
\<close>

definition metric_values :: "history \<Rightarrow> string list \<Rightarrow> string \<Rightarrow> real list" where
  "metric_values history dates metric =
     concat (map (\<lambda>date. case map_of history date of
                            None \<Rightarrow> []
                          | Some stats \<Rightarrow> (case map_of stats metric of None \<Rightarrow> [] | Some v \<Rightarrow> [v]))
                 dates)"

text \<open>The body of the loop over the metrics, from the values of one metric.\<close>

definition trend_of :: "real list \<Rightarrow> trend option" where
  "trend_of vals =
     (if 2 \<le> length vals then
        (let recent = drop (length vals - 3) vals;
             older = take (length vals - 3) vals;
             recent_avg = sum_list recent / real (length recent);
             older_avg = (if 3 < length vals then sum_list older / real (length older) else vals ! 0)
         in if 0 < older_avg then
              (let trend_pct = ((recent_avg - older_avg) / older_avg) * 100
               in Some \<lparr>direction = (if 5 < trend_pct then Up else if trend_pct < - 5 then Down else Flat),
                         percentage = trend_pct,
                         recent_avg = recent_avg,
                         baseline_avg = older_avg\<rparr>)
            else None)
      else None)"

definition tracked_metrics :: "string list" where
  "tracked_metrics = [''sent_count'', ''success_rate'', ''avg_queue_time'', ''total_size'']"

definition calculate_trends :: "history \<Rightarrow> (string \<times> trend) list" where
  "calculate_trends history =
     (if length history < 2 then []
      else
        (let keys = sort (map fst history);
             dates = drop (length keys - 8) keys
         in if length dates < 2 then []
            else concat (map (\<lambda>metric. case trend_of (metric_values history dates metric) of
                                           None \<Rightarrow> []
                                         | Some t \<Rightarrow> [(metric, t)])
                             tracked_metrics)))"

text \<open>
  \<open>calculate_trends\<close> on what \<open>json.load\<close> returned. A JSON object is the case above.
  An array or a string has a length but no \<open>keys\<close>: with fewer than two elements the
  function returns no trends, otherwise \<open>history.keys()\<close> raises \<open>AttributeError\<close>. A number,
  a boolean or \<open>null\<close> has no length: \<open>len(history)\<close> raises \<open>TypeError\<close>.
\<close>

definition trends_of_doc :: "history_doc \<Rightarrow> py_error + (string \<times> trend) list" where
  "trends_of_doc doc =
     (case doc of
        Object history \<Rightarrow> Inr (calculate_trends history)
      | Array n \<Rightarrow> if n < 2 then Inr [] else Inl AttributeError
      | Text n \<Rightarrow> if n < 2 then Inr [] else Inl AttributeError
      | Scalar \<Rightarrow> Inl TypeError)"

section \<open>Derived scalars, health score, alerts\<close>

text \<open>Python's \<open>/\<close> raises \<open>ZeroDivisionError\<close> on a zero divisor.\<close>

definition py_div :: "real \<Rightarrow> real \<Rightarrow> py_error + real" where
  "py_div a b = (if b = 0 then Inl ZeroDivisionError else Inr (a / b))"

text \<open>Sequencing: the first exception raised ends the computation.\<close>

definition res_bind :: "'e + 'a \<Rightarrow> ('a \<Rightarrow> 'e + 'b) \<Rightarrow> 'e + 'b" where
  "res_bind m f = (case m of Inl e \<Rightarrow> Inl e | Inr x \<Rightarrow> f x)"

text \<open>\<open>sum(xs) / len(xs) if xs else 0\<close>\<close>

definition mean_or_zero :: "real list \<Rightarrow> py_error + real" where
  "mean_or_zero xs = (if xs \<noteq> [] then py_div (sum_list xs) (real (length xs)) else Inr 0)"

text \<open>\<open>(n / tot * 100) if tot > 0 else 0\<close>\<close>

definition pct_or_zero :: "nat \<Rightarrow> nat \<Rightarrow> py_error + real" where
  "pct_or_zero n tot =
     (if 0 < tot then res_bind (py_div (real n) (real tot)) (\<lambda>q. Inr (q * 100)) else Inr 0)"

text \<open>\<open>n / d if tot > 0 else 0\<close>\<close>

definition div_or_zero :: "nat \<Rightarrow> nat \<Rightarrow> nat \<Rightarrow> py_error + real" where
  "div_or_zero n d tot = (if 0 < tot then py_div (real n) (real d) else Inr 0)"

text \<open>\<open>max(hourly_traffic.values()) if hourly_traffic else 0\<close>\<close>

definition max_or_zero :: "nat list \<Rightarrow> nat" where
  "max_or_zero xs = foldr max xs 0"

text \<open>
  The health score (source lines 576 to 581), from the success rate, the average queue
  time, \<open>len(auth_failures)\<close> and \<open>len(mail_loops)\<close>.
\<close>

definition health_score_of :: "real \<Rightarrow> real \<Rightarrow> nat \<Rightarrow> nat \<Rightarrow> real" where
  "health_score_of success_rate avg_queue_time n_auth_users n_loops =
     (let h0 = 100;
          h1 = (if success_rate < 95 then h0 - (95 - success_rate) * 2 else h0);
          h2 = (if 30 < avg_queue_time then h1 - min (avg_queue_time - 30) 20 else h1);
          h3 = (if n_auth_users \<noteq> 0 then h2 - min (real n_auth_users * 5) 30 else h2);
          h4 = (if n_loops \<noteq> 0 then h3 - real n_loops * 10 else h3)
      in max 0 h4)"

text \<open>
  The keys of \<open>ALERT_THRESHOLDS\<close>. The source never reads \<open>min_hourly_volume\<close>.
\<close>

record thresholds =
  min_success_rate :: real
  max_queue_time :: real
  max_auth_failures :: real
  high_volume_threshold_pct :: real
  max_hourly_volume :: real
  min_hourly_volume :: real
  max_avg_size :: real
  max_defer_rate :: real

record config =
  LOG_PATHS :: "string list"
  ALERT_THRESHOLDS :: thresholds
  HIGH_VOLUME_MODE :: bool

text \<open>
  An alert is a formatted message in the source; the model keeps which rule fired and
  the number the message shows.
\<close>

datatype alert =
    LowSuccessRate real
  | HighQueueTime real
  | AuthenticationFailures nat
  | MailLoopsDetected nat
  | SuccessRateDeclining real
  | QueueTimeIncreasing real
  | PeakHourVolume nat
  | HighDeferRate real
  | LargeAverageSize real
  | HighThroughput real

text \<open>The two trend rules and the four rules of the high-volume mode, in source order.\<close>

definition trend_alerts :: "(string \<times> trend) list \<Rightarrow> alert list" where
  "trend_alerts trends =
     (case map_of trends ''success_rate'' of
        None \<Rightarrow> []
      | Some t \<Rightarrow> if percentage t < - 10 then [SuccessRateDeclining (percentage t)] else [])
     @ (case map_of trends ''avg_queue_time'' of
          None \<Rightarrow> []
        | Some t \<Rightarrow> if 50 < percentage t then [QueueTimeIncreasing (percentage t)] else [])"

definition high_volume_alerts :: "thresholds \<Rightarrow> nat \<Rightarrow> real \<Rightarrow> real \<Rightarrow> real \<Rightarrow> alert list" where
  "high_volume_alerts th max_hourly defer_rate avg_message_size throughput_per_minute =
     (if max_hourly_volume th < real max_hourly then [PeakHourVolume max_hourly] else [])
     @ (if max_defer_rate th < defer_rate then [HighDeferRate defer_rate] else [])
     @ (if max_avg_size th < avg_message_size then [LargeAverageSize avg_message_size] else [])
     @ (if 100 < throughput_per_minute then [HighThroughput throughput_per_minute] else [])"

text \<open>
  The compromised-sender list (source lines 612 to 614): the comprehension over
  \<open>suspicious_senders.items()\<close>.
\<close>

definition compromised :: "real \<Rightarrow> (string \<times> nat) list \<Rightarrow> string list" where
  "compromised high_volume_threshold senders =
     map fst (filter (\<lambda>sc. high_volume_threshold < real (snd sc) \<and> contains ''@eusd.org'' (fst sc)) senders)"

section \<open>The engine: \<open>main\<close> up to the hand-over to rendering\<close>

text \<open>
  The result of a run: the accumulators of the second pass, the derived scalars, the
  trends, the alert list, the compromised-sender candidates, today's snapshot and what was
  written to the history file. Rendering the report and sending it are outside the model.
\<close>

record report = accum +
  total_messages :: nat
  success_rate :: real
  avg_queue_time :: real
  avg_message_size :: real
  defer_rate :: real
  max_hourly :: nat
  throughput_per_minute :: real
  health_score :: real
  trends :: "(string \<times> trend) list"
  alerts :: "alert list"
  compromised_candidates :: "string list"
  today_stats :: stats
  persisted :: "history option"

text \<open>
  What a run finds: the log files, the clock, the history file, and what the write of the
  history file does.
\<close>

record env =
  files :: filesystem
  now :: date
  history_file :: history_store
  history_write :: write_outcome

text \<open>
  Source lines 554 to 630, from the state after the two passes. An exception of
  \<open>calculate_trends\<close> (line 562) or of \<open>save_historical_data\<close> (line 630) ends the run.
\<close>

definition summarise :: "config \<Rightarrow> env \<Rightarrow> history_doc \<Rightarrow> index \<Rightarrow> accum \<Rightarrow> py_error + report" where
  "summarise cfg e historical_data ix st =
     res_bind (mean_or_zero (queue_times st)) (\<lambda>avg_queue_time.
     let total_messages = sent_count st + deferred_count st + bounced_count st in
     res_bind (pct_or_zero (sent_count st) total_messages) (\<lambda>success_rate.
     res_bind (trends_of_doc historical_data) (\<lambda>trends.
     res_bind (div_or_zero (total_size st) total_messages total_messages) (\<lambda>avg_message_size.
     res_bind (pct_or_zero (deferred_count st) total_messages) (\<lambda>defer_rate.
     let max_hourly = max_or_zero (map snd (hourly_traffic st)) in
     res_bind (div_or_zero total_messages (24 * 60) total_messages) (\<lambda>throughput_per_minute.
     let th = ALERT_THRESHOLDS cfg;
         n_auth = sum_list (map snd (auth_failures ix));
         health_score = health_score_of success_rate avg_queue_time
                          (length (auth_failures ix)) (length (mail_loops st));
         alerts =
           (if success_rate < min_success_rate th then [LowSuccessRate success_rate] else [])
           @ (if max_queue_time th < avg_queue_time then [HighQueueTime avg_queue_time] else [])
           @ (if max_auth_failures th < real n_auth then [AuthenticationFailures n_auth] else [])
           @ (if mail_loops st \<noteq> [] then [MailLoopsDetected (length (mail_loops st))] else [])
           @ trend_alerts trends
           @ (if HIGH_VOLUME_MODE cfg
              then high_volume_alerts th max_hourly defer_rate avg_message_size throughput_per_minute
              else []);
         high_volume_threshold = max 50 (real total_messages * high_volume_threshold_pct th);
         today_stats =
           [(''sent_count'', real (sent_count st)),
            (''deferred_count'', real (deferred_count st)),
            (''bounced_count'', real (bounced_count st)),
            (''success_rate'', success_rate),
            (''avg_queue_time'', avg_queue_time),
            (''total_size'', real (total_size st)),
            (''health_score'', health_score),
            (''auth_failures_count'', real n_auth),
            (''mail_loops_count'', real (length (mail_loops st)))]
     in res_bind (save_historical_data (now e) (history_write e) historical_data today_stats)
          (\<lambda>persisted.
        Inr \<lparr>sent_count = sent_count st,
             deferred_count = deferred_count st,
             bounced_count = bounced_count st,
             total_size = total_size st,
             suspicious_senders = suspicious_senders st,
             errors = errors st,
             queue_times = queue_times st,
             hourly_traffic = hourly_traffic st,
             mail_loops = mail_loops st,
             total_messages = total_messages,
             success_rate = success_rate,
             avg_queue_time = avg_queue_time,
             avg_message_size = avg_message_size,
             defer_rate = defer_rate,
             max_hourly = max_hourly,
             throughput_per_minute = throughput_per_minute,
             health_score = health_score,
             trends = trends,
             alerts = alerts,
             compromised_candidates = compromised high_volume_threshold (suspicious_senders st),
             today_stats = today_stats,
             persisted = persisted\<rparr>)))))))"

text \<open>
  \<open>main\<close>: load the history, run the first pass over every path and both dates, then the
  second pass, then summarise. An exception that nothing catches ends the run.
\<close>

definition main :: "config \<Rightarrow> env \<Rightarrow> py_error + report" where
  "main cfg e =
     (let today_date = strftime_ymd (now e);
          yesterday_date = strftime_ymd (minus_days (now e) 1)
      in res_bind (load_historical_data (history_file e)) (\<lambda>historical_data.
         res_bind (for_paths pass1_line (files e) (LOG_PATHS cfg) [today_date, yesterday_date] index0) (\<lambda>ix.
         res_bind (for_paths (pass2_line (message_sizes ix)) (files e) (LOG_PATHS cfg)
                     [today_date, yesterday_date] accum0) (\<lambda>st.
         summarise cfg e historical_data ix st))))"

section \<open>Reading without failure\<close>

text \<open>A path whose file opens and reads to the end, or is missing.\<close>

definition not_failing :: "log_file \<Rightarrow> bool" where
  "not_failing f = (case f of Failing ls e \<Rightarrow> False | _ \<Rightarrow> True)"

definition no_failure :: "filesystem \<Rightarrow> string list \<Rightarrow> bool" where
  "no_failure fs ps = list_all (\<lambda>p. not_failing (fs p)) ps"

text \<open>The lines a pass processes, in order, when no path fails.\<close>

definition lines_read :: "filesystem \<Rightarrow> string list \<Rightarrow> string list \<Rightarrow> string list" where
  "lines_read fs ps ds = concat (map (\<lambda>p. concat (map (\<lambda>d. fst (log_lines_today fs p d)) ds)) ps)"

text \<open>The write of the history raises nothing that \<open>save_historical_data\<close> lets through.\<close>

definition write_completes :: "write_outcome \<Rightarrow> bool" where
  "write_completes w = (case w of WriteOk \<Rightarrow> True | WriteRaises e \<Rightarrow> e = PermissionError)"

text \<open>The snapshot of a day without any message.\<close>

definition zero_stats :: stats where
  "zero_stats =
     [(''sent_count'', 0), (''deferred_count'', 0), (''bounced_count'', 0),
      (''success_rate'', 0), (''avg_queue_time'', 0), (''total_size'', 0),
      (''health_score'', 0), (''auth_failures_count'', 0), (''mail_loops_count'', 0)]"

section \<open>Example inputs\<close>

text \<open>
  The runs used as concrete inputs below take place on 2026-11-03 with the thresholds and
  the log paths of the source.
\<close>

definition demo_now :: date where
  "demo_now = \<lparr>year = 2026, month = 11, day = 3\<rparr>"

definition demo_thresholds :: thresholds where
  "demo_thresholds = \<lparr>min_success_rate = 95, max_queue_time = 30, max_auth_failures = 50,
     high_volume_threshold_pct = 5 / 100, max_hourly_volume = 500, min_hourly_volume = 10,
     max_avg_size = 10485760, max_defer_rate = 5\<rparr>"

definition demo_config :: config where
  "demo_config = \<lparr>LOG_PATHS = [''/var/log/mail.log'', ''/var/log/mail.log.1''],
     ALERT_THRESHOLDS = demo_thresholds, HIGH_VOLUME_MODE = True\<rparr>"

text \<open>
  Log lines: a size declaration of the queue manager, a sent line that carries sender,
  recipient and delay (as in the scenarios of the specification), a deferred and a bounced
  line, and a line of an earlier month.
\<close>

definition size_line :: string where
  "size_line = ''2026-11-03T09:00:01 postfix/qmgr[7]: A1B2: from=<a@eusd.org>, size=2048, nrcpt=1''"

definition sent_line :: string where
  "sent_line = ''2026-11-03T09:00:02 postfix/smtp[8]: A1B2: to=<b@eusd.org>, delay=0.05, status=sent from=<a@eusd.org>''"

definition deferred_line :: string where
  "deferred_line = ''2026-11-03T10:00:00 postfix/smtp[8]: C3D4: to=<c@y.org>, delay=12, status=deferred (Connection timed out)''"

definition bounced_line :: string where
  "bounced_line = ''2026-11-02T23:00:00 postfix/smtp[8]: E5F6: to=<d@y.org>, delay=1, status=bounced (user unknown)''"

definition old_line :: string where
  "old_line = ''2026-10-01T23:00:00 postfix/smtp[8]: E5F7: to=<d@y.org>, delay=1, status=bounced (user unknown)''"

text \<open>A sent line from an internal address to itself.\<close>

definition self_line :: string where
  "self_line = ''2026-11-03T09:05:00 postfix/smtp[8]: A1B3: to=<a@eusd.org>, delay=0.05, status=sent from=<a@eusd.org>''"

text \<open>A sent line whose sender's domain only begins with the internal domain.\<close>

definition spam_line :: string where
  "spam_line = ''2026-11-03T11:00:00 postfix/smtp[8]: F00D: to=<x@y.org>, delay=2, status=sent from=<mallory@eusd.org.example.net>''"

text \<open>The example run: one log file with the five lines, the rotated file missing.\<close>

definition demo_files :: filesystem where
  "demo_files p =
     (if p = ''/var/log/mail.log''
      then Readable [old_line, bounced_line, size_line, sent_line, deferred_line]
      else Missing)"

text \<open>
  A stored history with an entry older than 30 days and the sent counts of the last two
  days.
\<close>

definition demo_history :: history where
  "demo_history =
     [(''2026-09-30'', [(''health_score'', 100)]),
      (''2026-11-01'', [(''sent_count'', 100)]),
      (''2026-11-02'', [(''sent_count'', 110)])]"

text \<open>A stored history with a key whose month is not padded to two digits.\<close>

definition unpadded_history :: history where
  "unpadded_history = [(''2026-9-30'', [(''sent_count'', 7)])]"

definition demo_env :: env where
  "demo_env = \<lparr>files = demo_files, now = demo_now, history_file = Document (Object demo_history),
     history_write = WriteOk\<rparr>"

text \<open>A run in which every log file is missing.\<close>

definition quiet_env :: env where
  "quiet_env = \<lparr>files = (\<lambda>p. Missing), now = demo_now, history_file = NoFile,
     history_write = WriteOk\<rparr>"

text \<open>A log of \<open>n\<close> deferred lines, and a log of \<open>n\<close> copies of \<open>spam_line\<close>.\<close>

definition flood_env :: "nat \<Rightarrow> env" where
  "flood_env n =
     \<lparr>files = (\<lambda>p. if p = ''/var/log/mail.log'' then Readable (replicate n deferred_line) else Missing),
      now = demo_now, history_file = NoFile, history_write = WriteOk\<rparr>"

definition spam_env :: "nat \<Rightarrow> env" where
  "spam_env n =
     \<lparr>files = (\<lambda>p. if p = ''/var/log/mail.log'' then Readable (replicate n spam_line) else Missing),
      now = demo_now, history_file = NoFile, history_write = WriteOk\<rparr>"



section \<open>Lemmas: results and scalars\<close>

lemma res_bind_Inl: "res_bind (Inl e) f = Inl e"
  by (simp add: res_bind_def)

lemma res_bind_Inr: "res_bind (Inr x) f = f x"
  by (simp add: res_bind_def)

lemma res_bind_eq_Inr: "res_bind m f = Inr r \<longleftrightarrow> (\<exists>x. m = Inr x \<and> f x = Inr r)"
  by (cases m) (simp_all add: res_bind_def)

lemma mean_or_zero_Inr:
  "mean_or_zero xs = Inr (if xs = [] then 0 else sum_list xs / real (length xs))"
  by (simp add: mean_or_zero_def py_div_def)

lemma pct_or_zero_Inr:
  "pct_or_zero n tot = Inr (if 0 < tot then real n / real tot * 100 else 0)"
  by (simp add: pct_or_zero_def py_div_def res_bind_def)

lemma div_or_zero_Inr:
  "d \<noteq> 0 \<or> tot = 0 \<Longrightarrow> div_or_zero n d tot = Inr (if 0 < tot then real n / real d else 0)"
  by (auto simp add: div_or_zero_def py_div_def)

lemma save_historical_data_Object:
  "save_historical_data today w (Object hist) ts =
     (case w of
        WriteOk \<Rightarrow>
          Inr (Some (filter (\<lambda>kv. strftime_ymd (minus_days today 30) \<le> fst kv)
                       (AList.update (strftime_ymd today) ts hist)))
      | WriteRaises e \<Rightarrow> if e = PermissionError then Inr None else Inl e)"
  by (simp add: save_historical_data_def Let_def)

lemma save_historical_data_completes:
  assumes "write_completes w"
  shows "\<exists>p. save_historical_data today w (Object hist) ts = Inr p"
  using assms by (cases w) (simp_all add: save_historical_data_Object write_completes_def)

lemma summarise_total:
  assumes "write_completes (history_write e)"
  shows "\<exists>r. summarise cfg e (Object hist) ix st = Inr r"
proof -
  have t: "trends_of_doc (Object hist) = Inr (calculate_trends hist)"
    by (simp add: trends_of_doc_def)
  have s: "\<And>ts. \<exists>p. save_historical_data (now e) (history_write e) (Object hist) ts = Inr p"
    using assms by (rule save_historical_data_completes)
  show ?thesis
    unfolding summarise_def Let_def
    by (cases "sent_count st + deferred_count st + bounced_count st = 0")
       (simp_all add: mean_or_zero_Inr pct_or_zero_Inr div_or_zero_Inr res_bind_Inr t
          res_bind_eq_Inr s)
qed

text \<open>What ends the run after the two passes.\<close>

lemma summarise_write_failure:
  assumes "history_write e = WriteRaises err" and "err \<noteq> PermissionError"
  shows "summarise cfg e (Object hist) ix st = Inl err"
  unfolding summarise_def Let_def
  by (cases "sent_count st + deferred_count st + bounced_count st = 0")
     (simp_all add: mean_or_zero_Inr pct_or_zero_Inr div_or_zero_Inr res_bind_Inr res_bind_Inl
        trends_of_doc_def save_historical_data_Object assms)

lemma summarise_not_an_object:
  "summarise cfg e (Array n) ix st = Inl (if n < 2 then TypeError else AttributeError)"
  "summarise cfg e (Text n) ix st = Inl (if n < 2 then TypeError else AttributeError)"
  "summarise cfg e Scalar ix st = Inl TypeError"
  unfolding summarise_def Let_def
  by (cases "sent_count st + deferred_count st + bounced_count st = 0";
      simp add: mean_or_zero_Inr pct_or_zero_Inr div_or_zero_Inr res_bind_Inr res_bind_Inl
        trends_of_doc_def save_historical_data_def)+

lemma summarise_accum:
  assumes "summarise cfg e h ix st = Inr r"
  shows "sent_count r = sent_count st" and "deferred_count r = deferred_count st"
    and "bounced_count r = bounced_count st" and "errors r = errors st"
    and "queue_times r = queue_times st" and "mail_loops r = mail_loops st"
    and "suspicious_senders r = suspicious_senders st"
    and "hourly_traffic r = hourly_traffic st" and "total_size r = total_size st"
  using assms unfolding summarise_def Let_def
  by (cases "sent_count st + deferred_count st + bounced_count st = 0";
      auto simp add: mean_or_zero_Inr pct_or_zero_Inr div_or_zero_Inr res_bind_Inr
        res_bind_eq_Inr)+

lemma summarise_scalars:
  assumes "summarise cfg e h ix st = Inr r"
  shows "total_messages r = sent_count st + deferred_count st + bounced_count st"
    and "success_rate r =
           (if 0 < sent_count st + deferred_count st + bounced_count st
            then real (sent_count st) / real (sent_count st + deferred_count st + bounced_count st) * 100
            else 0)"
    and "avg_queue_time r =
           (if queue_times st = [] then 0 else sum_list (queue_times st) / real (length (queue_times st)))"
  using assms unfolding summarise_def Let_def
  by (cases "sent_count st + deferred_count st + bounced_count st = 0";
      auto simp add: mean_or_zero_Inr pct_or_zero_Inr div_or_zero_Inr res_bind_Inr
        res_bind_eq_Inr)+


lemma summarise_trends:
  assumes "summarise cfg e h ix st = Inr r"
  shows "trends_of_doc h = Inr (trends r)"
  using assms unfolding summarise_def Let_def
  by (cases "sent_count st + deferred_count st + bounced_count st = 0";
      auto simp add: mean_or_zero_Inr pct_or_zero_Inr div_or_zero_Inr res_bind_Inr
        res_bind_eq_Inr)


lemma summarise_compromised:
  assumes "summarise cfg e h ix st = Inr r"
  shows "compromised_candidates r =
           compromised (max 50 (real (total_messages r) * high_volume_threshold_pct (ALERT_THRESHOLDS cfg)))
             (suspicious_senders st)"
  using assms unfolding summarise_def Let_def
  by (cases "sent_count st + deferred_count st + bounced_count st = 0";
      auto simp add: mean_or_zero_Inr pct_or_zero_Inr div_or_zero_Inr res_bind_Inr
        res_bind_eq_Inr)

lemma compromised_iff:
  "s \<in> set (compromised thr senders) \<longleftrightarrow>
     (\<exists>c. (s, c) \<in> set senders \<and> thr < real c \<and> contains ''@eusd.org'' s)"
  by (force simp add: compromised_def)

lemma main_Inr:
  "main cfg e = Inr r \<longleftrightarrow>
     (\<exists>h ix st.
        load_historical_data (history_file e) = Inr h
        \<and> for_paths pass1_line (files e) (LOG_PATHS cfg)
             [strftime_ymd (now e), strftime_ymd (minus_days (now e) 1)] index0 = Inr ix
        \<and> for_paths (pass2_line (message_sizes ix)) (files e) (LOG_PATHS cfg)
             [strftime_ymd (now e), strftime_ymd (minus_days (now e) 1)] accum0 = Inr st
        \<and> summarise cfg e h ix st = Inr r)"
  unfolding main_def Let_def by (simp add: res_bind_eq_Inr)

section \<open>Lemmas: the loops of the two passes\<close>

lemma foldl_invariant:
  assumes "\<And>s l. P s \<Longrightarrow> P (body s l)" and "P st"
  shows "P (foldl body st ls)"
  using assms(2) by (induction ls arbitrary: st) (simp_all add: assms(1))

lemma for_lines_invariant:
  assumes "\<And>s l. P s \<Longrightarrow> P (body s l)" and "P st" and "for_lines body gen st = Inr st'"
  shows "P st'"
  using assms(3) foldl_invariant [of P body st "fst gen", OF assms(1) assms(2)]
  by (auto simp add: for_lines_def split: option.splits)

lemma for_dates_invariant:
  assumes "\<And>s l. P s \<Longrightarrow> P (body s l)"
  shows "P st \<Longrightarrow> for_dates body fs p ds st = Inr st' \<Longrightarrow> P st'"
proof (induction ds arbitrary: st)
  case Nil
  then show ?case by simp
next
  case (Cons d ds)
  from Cons.prems(2) obtain s1 where
    s1: "for_lines body (log_lines_today fs p d) st = Inr s1" and
    rest: "for_dates body fs p ds s1 = Inr st'"
    by (auto split: sum.splits)
  have "P s1" using for_lines_invariant [OF assms Cons.prems(1) s1] .
  then show ?case using Cons.IH rest by blast
qed

lemma for_paths_invariant:
  assumes "\<And>s l. P s \<Longrightarrow> P (body s l)"
  shows "P st \<Longrightarrow> for_paths body fs ps ds st = Inr st' \<Longrightarrow> P st'"
proof (induction ps arbitrary: st)
  case Nil
  then show ?case by simp
next
  case (Cons p ps)
  from Cons.prems(2) obtain s1 where
    s1: "for_dates body fs p ds st = Inr s1" and
    rest: "for_paths body fs ps ds s1 = Inr st'"
    by (auto split: sum.splits)
  have "P s1" using for_dates_invariant [of P body st fs p ds s1, OF assms Cons.prems(1) s1] .
  then show ?case using Cons.IH rest by blast
qed

text \<open>What one step of the second pass does to the counters.\<close>

lemma pass2_sent_fields:
  "sent_count (pass2_sent sizes st line) = sent_count st + 1"
  "deferred_count (pass2_sent sizes st line) = deferred_count st"
  "bounced_count (pass2_sent sizes st line) = bounced_count st"
  "errors (pass2_sent sizes st line) = errors st"
  "length (queue_times (pass2_sent sizes st line)) \<le> length (queue_times st) + 1"
  by (simp_all add: pass2_sent_def Let_def split: option.splits)

lemma pass2_line_queue_times:
  "length (queue_times st) \<le> sent_count st \<Longrightarrow>
   length (queue_times (pass2_line sizes st line)) \<le> sent_count (pass2_line sizes st line)"
  using pass2_sent_fields(5) [of sizes st line]
  by (simp add: pass2_line_def pass2_sent_fields(1))

lemma pass2_line_errors:
  "length (errors st) = deferred_count st + bounced_count st \<Longrightarrow>
   length (errors (pass2_line sizes st line)) =
     deferred_count (pass2_line sizes st line) + bounced_count (pass2_line sizes st line)"
  by (simp add: pass2_line_def pass2_sent_fields)

lemma pass2_sent_mail_loops:
  assumes "search_delay line = Some g"
  shows "mail_loops (pass2_sent sizes st line)
         = mail_loops st @ detect_loop (py_float g) (search_from line) (search_to line)"
  using assms by (simp add: pass2_sent_def Let_def split: option.splits)

lemma main_queue_times:
  assumes "main cfg e = Inr r"
  shows "length (queue_times r) \<le> sent_count r"
proof -
  from assms obtain h ix st where
    p2: "for_paths (pass2_line (message_sizes ix)) (files e) (LOG_PATHS cfg)
           [strftime_ymd (now e), strftime_ymd (minus_days (now e) 1)] accum0 = Inr st" and
    s: "summarise cfg e h ix st = Inr r"
    unfolding main_Inr by blast
  have "length (queue_times accum0) \<le> sent_count accum0" by (simp add: accum0_def)
  then have "length (queue_times st) \<le> sent_count st"
    using for_paths_invariant [where P = "\<lambda>s. length (queue_times s) \<le> sent_count s", OF _ _ p2]
      pass2_line_queue_times by blast
  then show ?thesis using summarise_accum(1,5) [OF s] by simp
qed

lemma main_errors_length:
  assumes "main cfg e = Inr r"
  shows "length (errors r) = deferred_count r + bounced_count r"
proof -
  from assms obtain h ix st where
    p2: "for_paths (pass2_line (message_sizes ix)) (files e) (LOG_PATHS cfg)
           [strftime_ymd (now e), strftime_ymd (minus_days (now e) 1)] accum0 = Inr st" and
    s: "summarise cfg e h ix st = Inr r"
    unfolding main_Inr by blast
  have "length (errors accum0) = deferred_count accum0 + bounced_count accum0"
    by (simp add: accum0_def)
  then have "length (errors st) = deferred_count st + bounced_count st"
    using for_paths_invariant
      [where P = "\<lambda>s. length (errors s) = deferred_count s + bounced_count s", OF _ _ p2]
      pass2_line_errors by blast
  then show ?thesis using summarise_accum(2,3,4) [OF s] by simp
qed

lemma main_scalars:
  assumes "main cfg e = Inr r"
  shows "total_messages r = sent_count r + deferred_count r + bounced_count r"
    and "success_rate r = (if 0 < total_messages r then real (sent_count r) / real (total_messages r) * 100 else 0)"
    and "avg_queue_time r = (if queue_times r = [] then 0 else sum_list (queue_times r) / real (length (queue_times r)))"
proof -
  from assms obtain h ix st where s: "summarise cfg e h ix st = Inr r"
    unfolding main_Inr by blast
  show "total_messages r = sent_count r + deferred_count r + bounced_count r"
    using summarise_scalars(1) [OF s] summarise_accum(1,2,3) [OF s] by simp
  then show "success_rate r = (if 0 < total_messages r then real (sent_count r) / real (total_messages r) * 100 else 0)"
    using summarise_scalars(2) [OF s] summarise_accum(1,2,3) [OF s] by simp
  show "avg_queue_time r = (if queue_times r = [] then 0 else sum_list (queue_times r) / real (length (queue_times r)))"
    using summarise_scalars(3) [OF s] summarise_accum(5) [OF s] by simp
qed

lemma for_dates_no_failure:
  assumes "not_failing (fs p)"
  shows "for_dates body fs p ds st =
         Inr (foldl body st (concat (map (\<lambda>d. fst (log_lines_today fs p d)) ds)))"
proof (induction ds arbitrary: st)
  case Nil
  then show ?case by simp
next
  case (Cons d ds)
  have "snd (log_lines_today fs p d) = None"
    using assms by (cases "fs p") (simp_all add: log_lines_today_def not_failing_def)
  then show ?case using Cons.IH by (simp add: for_lines_def)
qed

lemma for_paths_no_failure:
  "no_failure fs ps \<Longrightarrow> for_paths body fs ps ds st = Inr (foldl body st (lines_read fs ps ds))"
proof (induction ps arbitrary: st)
  case Nil
  then show ?case by (simp add: lines_read_def)
next
  case (Cons p ps)
  from Cons.prems have p: "not_failing (fs p)"
    and ps: "no_failure fs ps" by (simp_all add: no_failure_def)
  have d: "for_dates body fs p ds st =
           Inr (foldl body st (concat (map (\<lambda>d. fst (log_lines_today fs p d)) ds)))"
    by (rule for_dates_no_failure [where fs = fs and p = p, OF p])
  have r: "for_paths body fs ps ds (foldl body st (concat (map (\<lambda>d. fst (log_lines_today fs p d)) ds)))
           = Inr (foldl body (foldl body st (concat (map (\<lambda>d. fst (log_lines_today fs p d)) ds)))
                   (lines_read fs ps ds))"
    by (rule Cons.IH [OF ps])
  show ?case by (simp add: d r) (simp add: lines_read_def)
qed






section \<open>Lemmas: dates and their formatted order\<close>

lemma minus_days_numeral: "minus_days d (numeral k) = minus_days (pred_day d) (pred_numeral k)"
  by (simp add: numeral_eq_Suc)

lemma digit_char_table:
  "digit_char 0 = CHR ''0''" "digit_char 1 = CHR ''1''" "digit_char (Suc 0) = CHR ''1''" "digit_char 2 = CHR ''2''"
  "digit_char 3 = CHR ''3''" "digit_char 4 = CHR ''4''" "digit_char 5 = CHR ''5''"
  "digit_char 6 = CHR ''6''" "digit_char 7 = CHR ''7''" "digit_char 8 = CHR ''8''"
  "digit_char 9 = CHR ''9''"
  by (simp_all add: digit_char_def char_of_def bit_Suc_0_iff)

lemmas date_eval = strftime_ymd_def pad4_def pad2_def digit_char_table pred_day_def
  days_in_month_def is_leap_def minus_days_numeral

lemma of_char_digit_char: "n < 10 \<Longrightarrow> (of_char (digit_char n) :: nat) = 48 + n"
  by (simp add: digit_char_def)

lemma digit_char_less: "a < 10 \<Longrightarrow> b < 10 \<Longrightarrow> digit_char a < digit_char b \<longleftrightarrow> a < b"
  by (simp add: less_char_def of_char_digit_char)

lemma digit_char_eq:
  assumes "a < 10" and "b < 10"
  shows "digit_char a = digit_char b \<longleftrightarrow> a = b"
proof
  assume "digit_char a = digit_char b"
  then have "(of_char (digit_char a) :: nat) = of_char (digit_char b)" by (rule arg_cong)
  then show "a = b" by (simp only: of_char_digit_char [OF assms(1)] of_char_digit_char [OF assms(2)] add_left_cancel)
next
  assume "a = b"
  then show "digit_char a = digit_char b" by (rule arg_cong)
qed

lemma digits_le:
  fixes x y x' y' :: nat
  assumes "y < 10" and "y' < 10"
  shows "(x < x' \<or> (x = x' \<and> (y < y' \<or> (y = y' \<and> B))))
         \<longleftrightarrow> (10 * x + y < 10 * x' + y' \<or> (10 * x + y = 10 * x' + y' \<and> B))"
  using assms by (cases B) auto

lemma digit_Cons_le:
  assumes "x < 10" and "x' < 10"
  shows "digit_char x # r \<le> digit_char x' # s \<longleftrightarrow> x < x' \<or> (x = x' \<and> r \<le> s)"
  by (simp only: Cons_le_Cons digit_char_less [OF assms] digit_char_eq [OF assms])

lemma pad2_le:
  assumes "a < 100" and "b < 100"
  shows "pad2 a @ r \<le> pad2 b @ s \<longleftrightarrow> a < b \<or> (a = b \<and> r \<le> s)"
proof -
  have da: "a div 10 < 10" and db: "b div 10 < 10" using assms by simp_all
  have ma: "a mod 10 < 10" and mb: "b mod 10 < 10" by simp_all
  have pa: "pad2 a @ r = digit_char (a div 10) # digit_char (a mod 10) # r"
    using da by (simp add: pad2_def)
  have pb: "pad2 b @ s = digit_char (b div 10) # digit_char (b mod 10) # s"
    using db by (simp add: pad2_def)
  have "pad2 a @ r \<le> pad2 b @ s \<longleftrightarrow>
        a div 10 < b div 10 \<or> (a div 10 = b div 10 \<and> (a mod 10 < b mod 10 \<or> (a mod 10 = b mod 10 \<and> r \<le> s)))"
    by (simp only: pa pb digit_Cons_le [OF da db] digit_Cons_le [OF ma mb])
  also have "\<dots> \<longleftrightarrow> 10 * (a div 10) + a mod 10 < 10 * (b div 10) + b mod 10
                       \<or> (10 * (a div 10) + a mod 10 = 10 * (b div 10) + b mod 10 \<and> r \<le> s)"
    by (rule digits_le [OF ma mb])
  also have "\<dots> \<longleftrightarrow> a < b \<or> (a = b \<and> r \<le> s)"
    by (simp only: mult_div_mod_eq)
  finally show ?thesis .
qed

lemma hundreds_le:
  fixes x y x' y' :: nat
  assumes "y < 100" and "y' < 100"
  shows "(x < x' \<or> (x = x' \<and> (y < y' \<or> (y = y' \<and> B))))
         \<longleftrightarrow> (100 * x + y < 100 * x' + y' \<or> (100 * x + y = 100 * x' + y' \<and> B))"
  using assms by (cases B) auto

lemma pad4_pad2: "pad4 a = pad2 (a div 100) @ pad2 (a mod 100)"
proof -
  have "a div 100 div 10 = a div 1000" by (simp add: div_mult2_eq [symmetric])
  moreover have "a mod 100 div 10 mod 10 = a div 10 mod 10"
  proof -
    have e: "a mod 100 = 10 * (a div 10 mod 10) + a mod 10"
      using mod_mult2_eq [of a 10 10] by simp
    have "a mod 100 div 10 = a div 10 mod 10" by (simp add: e)
    then show ?thesis by simp
  qed
  moreover have "a mod 100 mod 10 = a mod 10"
    by (simp add: mod_mod_cancel)
  ultimately show ?thesis by (simp add: pad4_def pad2_def)
qed

lemma pad4_le:
  assumes "a < 10000" and "b < 10000"
  shows "pad4 a @ r \<le> pad4 b @ s \<longleftrightarrow> a < b \<or> (a = b \<and> r \<le> s)"
proof -
  have da: "a div 100 < 100" and db: "b div 100 < 100" using assms by simp_all
  have ma: "a mod 100 < 100" and mb: "b mod 100 < 100" by simp_all
  have "pad4 a @ r \<le> pad4 b @ s \<longleftrightarrow>
        pad2 (a div 100) @ (pad2 (a mod 100) @ r) \<le> pad2 (b div 100) @ (pad2 (b mod 100) @ s)"
    by (simp only: pad4_pad2 append_assoc)
  also have "\<dots> \<longleftrightarrow>
        a div 100 < b div 100
        \<or> (a div 100 = b div 100 \<and> (a mod 100 < b mod 100 \<or> (a mod 100 = b mod 100 \<and> r \<le> s)))"
    by (simp only: pad2_le [OF da db] pad2_le [OF ma mb])
  also have "\<dots> \<longleftrightarrow> 100 * (a div 100) + a mod 100 < 100 * (b div 100) + b mod 100
                       \<or> (100 * (a div 100) + a mod 100 = 100 * (b div 100) + b mod 100 \<and> r \<le> s)"
    by (rule hundreds_le [OF ma mb])
  also have "\<dots> \<longleftrightarrow> a < b \<or> (a = b \<and> r \<le> s)"
    by (simp only: mult_div_mod_eq)
  finally show ?thesis .
qed

lemma pad2_le_plain:
  assumes "a < 100" and "b < 100"
  shows "pad2 a \<le> pad2 b \<longleftrightarrow> a \<le> b"
  using pad2_le [OF assms, of "[]" "[]"] by auto

text \<open>
  For dates whose fields are in range, the order of the formatted strings is the
  chronological order.
\<close>

lemma strftime_ymd_le:
  assumes "year a < 10000" and "month a < 100" and "day a < 100"
    and "year b < 10000" and "month b < 100" and "day b < 100"
  shows "strftime_ymd a \<le> strftime_ymd b \<longleftrightarrow> date_le a b"
proof -
  have "strftime_ymd a \<le> strftime_ymd b \<longleftrightarrow>
        year a < year b
        \<or> (year a = year b \<and> CHR ''-'' # (pad2 (month a) @ CHR ''-'' # pad2 (day a))
                                \<le> CHR ''-'' # (pad2 (month b) @ CHR ''-'' # pad2 (day b)))"
    unfolding strftime_ymd_def using pad4_le [OF assms(1) assms(4)] by simp
  also have "\<dots> \<longleftrightarrow>
        year a < year b
        \<or> (year a = year b \<and> (month a < month b
              \<or> (month a = month b \<and> CHR ''-'' # pad2 (day a) \<le> CHR ''-'' # pad2 (day b))))"
    using pad2_le [OF assms(2) assms(5)] by simp
  also have "\<dots> \<longleftrightarrow> date_le a b"
    using pad2_le_plain [OF assms(3) assms(6)] by (simp add: date_le_def)
  finally show ?thesis .
qed

lemma days_in_month_bounds: "28 \<le> days_in_month y m \<and> days_in_month y m \<le> 31"
  by (simp add: days_in_month_def)

lemma valid_date_fields: "valid_date d \<Longrightarrow> month d < 100 \<and> day d < 100"
  using days_in_month_bounds [of "year d" "month d"] by (simp add: valid_date_def)

lemma valid_date_pred_day:
  assumes "valid_date d"
  shows "valid_date (pred_day d)"
proof (cases "1 < day d")
  case True
  then show ?thesis using assms by (auto simp add: valid_date_def pred_day_def)
next
  case False
  note day1 = False
  show ?thesis
  proof (cases "1 < month d")
    case True
    have "1 \<le> days_in_month (year d) (month d - 1)"
      using days_in_month_bounds [of "year d" "month d - 1"] by simp
    then show ?thesis using True day1 assms by (auto simp add: valid_date_def pred_day_def)
  next
    case False
    have "days_in_month (year d - 1) 12 = 31" by (simp add: days_in_month_def)
    then show ?thesis using False day1 by (simp add: valid_date_def pred_day_def)
  qed
qed

lemma year_pred_day: "year (pred_day d) \<le> year d"
  by (simp add: pred_day_def)

lemma valid_date_minus_days: "valid_date d \<Longrightarrow> valid_date (minus_days d n)"
  by (induction n arbitrary: d) (simp_all add: valid_date_pred_day)

lemma year_minus_days: "year (minus_days d n) \<le> year d"
proof (induction n arbitrary: d)
  case 0
  then show ?case by simp
next
  case (Suc n)
  have "year (minus_days (pred_day d) n) \<le> year (pred_day d)" by (rule Suc.IH)
  then show ?case using year_pred_day [of d] by simp
qed

lemma save_historical_data_keys:
  assumes "save_historical_data today w doc ts = Inr (Some h')"
    and "(k, v) \<in> set h'"
  shows "strftime_ymd (minus_days today 30) \<le> k"
  using assms
  by (auto simp add: save_historical_data_def Let_def
      split: if_splits history_doc.splits write_outcome.splits)






section \<open>Lemmas: trends\<close>

lemma trend_of_direction:
  assumes "trend_of vals = Some t"
  shows "(direction t = Up \<longleftrightarrow> 5 < percentage t)
       \<and> (direction t = Down \<longleftrightarrow> percentage t < - 5)
       \<and> (direction t = Flat \<longleftrightarrow> - 5 \<le> percentage t \<and> percentage t \<le> 5)"
  using assms by (auto simp add: trend_of_def Let_def split: if_splits)

lemma calculate_trends_from_trend_of:
  assumes "(metric, t) \<in> set (calculate_trends history)"
  shows "\<exists>vals. trend_of vals = Some t"
  using assms by (auto simp add: calculate_trends_def Let_def split: if_splits option.splits)

section \<open>Lemmas: the example runs\<close>

lemma demo_dates:
  "strftime_ymd demo_now = ''2026-11-03''"
  "strftime_ymd (minus_days demo_now 1) = ''2026-11-02''"
  "strftime_ymd (minus_days demo_now 30) = ''2026-10-04''"
  by (simp_all add: demo_now_def date_eval)

lemma demo_lines_read:
  "lines_read demo_files [''/var/log/mail.log'', ''/var/log/mail.log.1''] [''2026-11-03'', ''2026-11-02'']
     = [size_line, sent_line, deferred_line, bounced_line]"
  by (simp add: lines_read_def log_lines_today_def demo_files_def
      old_line_def bounced_line_def size_line_def sent_line_def deferred_line_def)

lemmas class_defs = is_digit_def is_alnum_def is_upper_def is_lower_def is_space_def

lemmas parse_defs = search_from_def search_to_def search_delay_def search_smtp_id_def
  search_size_def search_user_def m_angle_def m_delay_def m_smtp_id_def m_size_def m_user_def
  delay_group_def time_match_def nat_of_digits_def digit_val_def py_float_def class_defs

lemma lower_char_table:
  "lower_char CHR ''A'' = CHR ''a''" "lower_char CHR ''B'' = CHR ''b''"
  "lower_char CHR ''C'' = CHR ''c''" "lower_char CHR ''D'' = CHR ''d''"
  "lower_char CHR ''E'' = CHR ''e''" "lower_char CHR ''F'' = CHR ''f''"
  "lower_char CHR ''T'' = CHR ''t''"
  by (simp_all add: lower_char_def is_upper_def char_of_def bit_Suc_0_iff)

lemma size_line_pass1:
  "search_size size_line = Some (''A1B2'', 2048)"
  "\<not> contains ''authentication failed'' (lower size_line)"
  "\<not> contains ''sasl login failed'' (lower size_line)"
  unfolding size_line_def by (simp_all add: parse_defs lower_def lower_char_def)

lemma other_lines_pass1:
  "search_size sent_line = None"
  "\<not> contains ''authentication failed'' (lower sent_line)"
  "\<not> contains ''sasl login failed'' (lower sent_line)"
  "search_size deferred_line = None"
  "\<not> contains ''authentication failed'' (lower deferred_line)"
  "\<not> contains ''sasl login failed'' (lower deferred_line)"
  "search_size bounced_line = None"
  "\<not> contains ''authentication failed'' (lower bounced_line)"
  "\<not> contains ''sasl login failed'' (lower bounced_line)"
  unfolding sent_line_def deferred_line_def bounced_line_def
  by (simp_all add: parse_defs lower_def lower_char_def)

lemma demo_pass1:
  "foldl pass1_line index0 [size_line, sent_line, deferred_line, bounced_line]
     = \<lparr>message_sizes = [(''A1B2'', 2048)], auth_failures = []\<rparr>"
  by (simp add: pass1_line_def size_line_pass1 other_lines_pass1 index0_def)

lemma sent_line_parse:
  "contains '' status=sent '' sent_line"
  "search_from sent_line = Some ''a@eusd.org''"
  "search_to sent_line = Some ''b@eusd.org''"
  "search_delay sent_line = Some ''0.05''"
  "search_smtp_id sent_line = Some ''A1B2''"
  "time_match sent_line = Some 9"
  unfolding sent_line_def by (simp_all add: parse_defs)

lemma status_markers:
  "\<not> contains '' status=sent '' size_line"
  "\<not> contains ''status=deferred'' size_line"
  "\<not> contains ''status=bounced'' size_line"
  "\<not> contains ''status=reject'' size_line"
  "\<not> contains '' status=sent '' deferred_line"
  "contains ''status=deferred'' deferred_line"
  "\<not> contains '' status=sent '' bounced_line"
  "\<not> contains ''status=deferred'' bounced_line"
  "contains ''status=bounced'' bounced_line"
  unfolding size_line_def deferred_line_def bounced_line_def by simp_all

lemma strip_lines:
  "strip deferred_line = deferred_line" "strip bounced_line = bounced_line"
  unfolding deferred_line_def bounced_line_def by (simp_all add: strip_def is_space_def)

lemma py_float_005: "py_float ''0.05'' = 1 / 20"
  by (simp add: parse_defs)

lemma get_domain_demo:
  "get_domain ''a@eusd.org'' = ''eusd.org''" "get_domain ''b@eusd.org'' = ''eusd.org''"
  by (simp_all add: get_domain_def)

lemma demo_pass2:
  "foldl (pass2_line [(''A1B2'', 2048)]) accum0 [size_line, sent_line, deferred_line, bounced_line]
     = \<lparr>sent_count = 1, deferred_count = 1, bounced_count = 1, total_size = 2048,
         suspicious_senders = [(''a@eusd.org'', 1)], errors = [deferred_line, bounced_line],
         queue_times = [1 / 20], hourly_traffic = [(9, 1)],
         mail_loops = [''Internal loop: a@eusd.org '' @ arrow @ '' b@eusd.org'']\<rparr>"
  by (simp add: pass2_line_def pass2_sent_def status_markers sent_line_parse strip_lines
      py_float_005 detect_loop_def get_domain_demo counter_inc_def count_of_def accum0_def)

lemma demo_no_failure: "no_failure demo_files [''/var/log/mail.log'', ''/var/log/mail.log.1'']"
  by (simp add: no_failure_def not_failing_def demo_files_def)

lemma demo_run:
  "\<exists>r. main demo_config demo_env = Inr r
       \<and> sent_count r = 1 \<and> deferred_count r = 1 \<and> bounced_count r = 1
       \<and> errors r = [deferred_line, bounced_line]
       \<and> queue_times r = [1 / 20]
       \<and> suspicious_senders r = [(''a@eusd.org'', 1)]
       \<and> mail_loops r = [''Internal loop: a@eusd.org '' @ arrow @ '' b@eusd.org'']"
proof -
  let ?ps = "[''/var/log/mail.log'', ''/var/log/mail.log.1'']"
  let ?ds = "[''2026-11-03'', ''2026-11-02'']"
  let ?ix = "\<lparr>message_sizes = [(''A1B2'', 2048)], auth_failures = []\<rparr>"
  let ?st = "\<lparr>sent_count = 1, deferred_count = 1, bounced_count = 1, total_size = 2048,
         suspicious_senders = [(''a@eusd.org'', 1)], errors = [deferred_line, bounced_line],
         queue_times = [1 / 20], hourly_traffic = [(9, 1)],
         mail_loops = [''Internal loop: a@eusd.org '' @ arrow @ '' b@eusd.org'']\<rparr>"
  have p1: "for_paths pass1_line demo_files ?ps ?ds index0 = Inr ?ix"
    by (simp only: for_paths_no_failure [OF demo_no_failure] demo_lines_read demo_pass1)
  have p2: "for_paths (pass2_line [(''A1B2'', 2048)]) demo_files ?ps ?ds accum0 = Inr ?st"
    by (simp only: for_paths_no_failure [OF demo_no_failure] demo_lines_read demo_pass2)
  have wc: "write_completes (history_write demo_env)"
    by (simp add: demo_env_def write_completes_def)
  obtain r where r: "summarise demo_config demo_env (Object demo_history) ?ix ?st = Inr r"
    using summarise_total [OF wc] by blast
  have sel: "now demo_env = demo_now" "files demo_env = demo_files"
      "history_file demo_env = Document (Object demo_history)" "LOG_PATHS demo_config = ?ps"
    by (simp_all add: demo_env_def demo_config_def)
  have ld: "load_historical_data (history_file demo_env) = Inr (Object demo_history)"
    by (simp add: sel load_historical_data_def)
  have q1: "for_paths pass1_line (files demo_env) (LOG_PATHS demo_config)
              [strftime_ymd (now demo_env), strftime_ymd (minus_days (now demo_env) 1)] index0 = Inr ?ix"
    by (simp only: sel demo_dates p1)
  have ms: "message_sizes ?ix = [(''A1B2'', 2048)]" by simp
  have q2: "for_paths (pass2_line (message_sizes ?ix)) (files demo_env) (LOG_PATHS demo_config)
              [strftime_ymd (now demo_env), strftime_ymd (minus_days (now demo_env) 1)] accum0 = Inr ?st"
    by (simp only: ms sel demo_dates p2)
  have "main demo_config demo_env = Inr r"
    unfolding main_Inr using ld q1 q2 r by blast
  then show ?thesis using summarise_accum [OF r] by auto
qed

lemma quiet_run: "\<exists>r. main demo_config quiet_env = Inr r \<and> total_messages r = 0"
proof -
  have nf: "no_failure (\<lambda>p. Missing) (LOG_PATHS demo_config)"
    by (simp add: no_failure_def not_failing_def demo_config_def)
  have lr: "lines_read (\<lambda>p. Missing) ps ds = []" for ps ds
    by (simp add: lines_read_def log_lines_today_def)
  have wc: "write_completes (history_write quiet_env)"
    by (simp add: quiet_env_def write_completes_def)
  obtain r where r: "summarise demo_config quiet_env (Object []) index0 accum0 = Inr r"
    using summarise_total [OF wc] by blast
  have sel: "files quiet_env = (\<lambda>p. Missing)" "history_file quiet_env = NoFile"
    by (simp_all add: quiet_env_def)
  have ld: "load_historical_data (history_file quiet_env) = Inr (Object [])"
    by (simp add: sel load_historical_data_def)
  have q1: "for_paths pass1_line (files quiet_env) (LOG_PATHS demo_config) ds index0 = Inr index0" for ds
    by (simp add: sel for_paths_no_failure [OF nf] lr)
  have q2: "for_paths (pass2_line (message_sizes index0)) (files quiet_env) (LOG_PATHS demo_config) ds accum0
              = Inr accum0" for ds
    by (simp add: sel for_paths_no_failure [OF nf] lr)
  have "main demo_config quiet_env = Inr r"
    unfolding main_Inr using ld q1 q2 r by blast
  moreover have "total_messages r = 0"
    using summarise_scalars(1) [OF r] by (simp add: accum0_def)
  ultimately show ?thesis by blast
qed

lemma pass2_line_deferred:
  "pass2_line sizes st deferred_line =
     st\<lparr>deferred_count := deferred_count st + 1, errors := errors st @ [deferred_line]\<rparr>"
  by (simp add: pass2_line_def status_markers strip_lines)

lemma flood_pass2:
  "length (errors (foldl (pass2_line sizes) st (replicate n deferred_line))) = length (errors st) + n"
  by (induction n arbitrary: st) (simp_all add: pass2_line_deferred)

lemma flood_run:
  "\<exists>r. main demo_config (flood_env n) = Inr r \<and> length (errors r) = n"
proof -
  let ?fs = "\<lambda>p. if p = ''/var/log/mail.log'' then Readable (replicate n deferred_line) else Missing"
  let ?ps = "[''/var/log/mail.log'', ''/var/log/mail.log.1'']"
  let ?ds = "[''2026-11-03'', ''2026-11-02'']"
  have sel: "now (flood_env n) = demo_now" "files (flood_env n) = ?fs"
      "history_file (flood_env n) = NoFile" "LOG_PATHS demo_config = ?ps"
    by (simp_all add: flood_env_def demo_config_def)
  have nf: "no_failure ?fs ?ps" by (simp add: no_failure_def not_failing_def)
  have today: "prefix ''2026-11-03'' deferred_line" and yest: "\<not> prefix ''2026-11-02'' deferred_line"
    by (simp_all add: deferred_line_def)
  have lr: "lines_read ?fs ?ps ?ds = replicate n deferred_line"
    using today yest by (simp add: lines_read_def log_lines_today_def)
  define ix where "ix = foldl pass1_line index0 (lines_read ?fs ?ps ?ds)"
  have q1: "for_paths pass1_line ?fs ?ps ?ds index0 = Inr ix"
    unfolding ix_def by (rule for_paths_no_failure [OF nf])
  let ?st = "foldl (pass2_line (message_sizes ix)) accum0 (replicate n deferred_line)"
  have q2: "for_paths (pass2_line (message_sizes ix)) ?fs ?ps ?ds accum0 = Inr ?st"
    by (simp only: for_paths_no_failure [OF nf] lr)
  have wc: "write_completes (history_write (flood_env n))"
    by (simp add: flood_env_def write_completes_def)
  obtain r where r: "summarise demo_config (flood_env n) (Object []) ix ?st = Inr r"
    using summarise_total [OF wc] by blast
  have ld: "load_historical_data (history_file (flood_env n)) = Inr (Object [])"
    by (simp add: sel load_historical_data_def)
  have "main demo_config (flood_env n) = Inr r"
    unfolding main_Inr sel demo_dates using ld [unfolded sel] q1 q2 r by blast
  moreover have "length (errors r) = n"
    using summarise_accum(4) [OF r] flood_pass2 [of "message_sizes ix" accum0 n]
    by (simp add: accum0_def)
  ultimately show ?thesis by blast
qed

lemma demo_trends:
  "calculate_trends demo_history =
     [(''sent_count'', \<lparr>direction = Flat, percentage = 5, recent_avg = 105, baseline_avg = 100\<rparr>)]"
  by (simp add: calculate_trends_def demo_history_def tracked_metrics_def metric_values_def
      trend_of_def Let_def)

lemma demo_save:
  "save_historical_data demo_now WriteOk (Object demo_history) [(''sent_count'', 1)] =
     Inr (Some [(''2026-11-01'', [(''sent_count'', 100)]),
                (''2026-11-02'', [(''sent_count'', 110)]),
                (''2026-11-03'', [(''sent_count'', 1)])])"
  by (simp add: save_historical_data_def demo_dates demo_history_def Let_def)

lemma self_line_parse:
  "contains '' status=sent '' self_line"
  "search_from self_line = Some ''a@eusd.org''"
  "search_to self_line = Some ''a@eusd.org''"
  "search_delay self_line = Some ''0.05''"
  unfolding self_line_def by (simp_all add: parse_defs)

lemma spam_line_parse:
  "contains '' status=sent '' spam_line"
  "search_from spam_line = Some ''mallory@eusd.org.example.net''"
  unfolding spam_line_def by (simp_all add: parse_defs)

lemma pass2_line_spam:
  "sent_count (pass2_line sizes st spam_line) = sent_count st + 1"
  "deferred_count (pass2_line sizes st spam_line) = deferred_count st"
  "bounced_count (pass2_line sizes st spam_line) = bounced_count st"
  "suspicious_senders (pass2_line sizes st spam_line)
     = counter_inc ''mallory@eusd.org.example.net'' (suspicious_senders st)"
  by (simp_all add: pass2_line_def spam_line_parse pass2_sent_def Let_def split: option.splits)

lemma spam_pass2:
  "sent_count (foldl (pass2_line sizes) accum0 (replicate n spam_line)) = n
   \<and> deferred_count (foldl (pass2_line sizes) accum0 (replicate n spam_line)) = 0
   \<and> bounced_count (foldl (pass2_line sizes) accum0 (replicate n spam_line)) = 0
   \<and> suspicious_senders (foldl (pass2_line sizes) accum0 (replicate n spam_line))
       = (if n = 0 then [] else [(''mallory@eusd.org.example.net'', n)])"
proof (induction n)
  case 0
  show ?case by (simp add: accum0_def)
next
  case (Suc n)
  have r: "replicate (Suc n) spam_line = replicate n spam_line @ [spam_line]"
    by (simp add: replicate_append_same)
  show ?case
    using Suc.IH unfolding r foldl_append
    by (simp add: pass2_line_spam counter_inc_def count_of_def)
qed

lemma spam_run:
  "\<exists>r. main demo_config (spam_env n) = Inr r
       \<and> total_messages r = n
       \<and> compromised_candidates r =
           compromised (max 50 (real n * (5 / 100)))
             (if n = 0 then [] else [(''mallory@eusd.org.example.net'', n)])"
proof -
  let ?fs = "\<lambda>p. if p = ''/var/log/mail.log'' then Readable (replicate n spam_line) else Missing"
  let ?ps = "[''/var/log/mail.log'', ''/var/log/mail.log.1'']"
  let ?ds = "[''2026-11-03'', ''2026-11-02'']"
  have sel: "now (spam_env n) = demo_now" "files (spam_env n) = ?fs"
      "history_file (spam_env n) = NoFile" "LOG_PATHS demo_config = ?ps"
    by (simp_all add: spam_env_def demo_config_def)
  have nf: "no_failure ?fs ?ps" by (simp add: no_failure_def not_failing_def)
  have today: "prefix ''2026-11-03'' spam_line" and yest: "\<not> prefix ''2026-11-02'' spam_line"
    by (simp_all add: spam_line_def)
  have lr: "lines_read ?fs ?ps ?ds = replicate n spam_line"
    using today yest by (simp add: lines_read_def log_lines_today_def)
  define ix where "ix = foldl pass1_line index0 (lines_read ?fs ?ps ?ds)"
  have q1: "for_paths pass1_line ?fs ?ps ?ds index0 = Inr ix"
    unfolding ix_def by (rule for_paths_no_failure [OF nf])
  let ?st = "foldl (pass2_line (message_sizes ix)) accum0 (replicate n spam_line)"
  have q2: "for_paths (pass2_line (message_sizes ix)) ?fs ?ps ?ds accum0 = Inr ?st"
    by (simp only: for_paths_no_failure [OF nf] lr)
  have wc: "write_completes (history_write (spam_env n))"
    by (simp add: spam_env_def write_completes_def)
  obtain r where r: "summarise demo_config (spam_env n) (Object []) ix ?st = Inr r"
    using summarise_total [OF wc] by blast
  have ld: "load_historical_data (history_file (spam_env n)) = Inr (Object [])"
    by (simp add: sel load_historical_data_def)
  have m: "main demo_config (spam_env n) = Inr r"
    unfolding main_Inr sel demo_dates using ld [unfolded sel] q1 q2 r by blast
  have t: "total_messages r = n"
    using summarise_scalars(1) [OF r] spam_pass2 [of "message_sizes ix" n] by simp
  have "compromised_candidates r =
           compromised (max 50 (real n * (5 / 100)))
             (if n = 0 then [] else [(''mallory@eusd.org.example.net'', n)])"
    using summarise_compromised [OF r] t spam_pass2 [of "message_sizes ix" n]
    by (simp add: demo_config_def demo_thresholds_def)
  then show ?thesis using m t by blast
qed

section \<open>The claims\<close>

subsection \<open>C1: the counters and the success rate\<close>

text \<open>
  C1. At the end of every run of \<open>main\<close> that reaches the aggregate, the three status
  counters sum to \<open>total_messages\<close> and \<open>success_rate\<close> lies in the closed interval from
  0 to 100.
\<close>

theorem main_counts_sum_and_rate_range:
  assumes "main cfg e = Inr r"
  shows "sent_count r + deferred_count r + bounced_count r = total_messages r
         \<and> 0 \<le> success_rate r \<and> success_rate r \<le> 100"
proof -
  have tot: "total_messages r = sent_count r + deferred_count r + bounced_count r"
    using main_scalars(1) [OF assms] .
  have sr: "success_rate r = (if 0 < total_messages r then real (sent_count r) / real (total_messages r) * 100 else 0)"
    using main_scalars(2) [OF assms] .
  have le: "real (sent_count r) \<le> real (total_messages r)" using tot by simp
  have "0 \<le> success_rate r" using sr by simp
  moreover have "success_rate r \<le> 100"
  proof (cases "0 < total_messages r")
    case True
    have "real (sent_count r) * 100 \<le> 100 * real (total_messages r)" using le by simp
    then show ?thesis using sr True by (simp add: pos_divide_le_eq)
  next
    case False
    then show ?thesis using sr by simp
  qed
  ultimately show ?thesis using tot by simp
qed

text \<open>The example run: one sent, one deferred and one bounced message.\<close>

theorem main_counts_sum_and_rate_range_witness:
  "\<exists>r. main demo_config demo_env = Inr r
       \<and> sent_count r = 1 \<and> deferred_count r = 1 \<and> bounced_count r = 1
       \<and> sent_count r + deferred_count r + bounced_count r = total_messages r
       \<and> 0 \<le> success_rate r \<and> success_rate r \<le> 100"
proof -
  obtain r where r: "main demo_config demo_env = Inr r"
    and c: "sent_count r = 1" "deferred_count r = 1" "bounced_count r = 1"
    using demo_run by blast
  show ?thesis
    using r c main_counts_sum_and_rate_range [OF r] by blast
qed

subsection \<open>C2: no messages\<close>

text \<open>
  C2. In every run with \<open>total_messages = 0\<close> the scalars \<open>success_rate\<close> and
  \<open>avg_queue_time\<close> are 0, and their computations, with Python's division that raises
  on a zero divisor, return 0 without raising.
\<close>

theorem main_zero_total_zero_scalars:
  assumes "main cfg e = Inr r" and "total_messages r = 0"
  shows "success_rate r = 0 \<and> avg_queue_time r = 0
         \<and> pct_or_zero (sent_count r) (total_messages r) = Inr 0
         \<and> mean_or_zero (queue_times r) = Inr 0"
proof -
  have "sent_count r = 0" using main_scalars(1) [OF assms(1)] assms(2) by simp
  then have q: "queue_times r = []" using main_queue_times [OF assms(1)] by simp
  show ?thesis
    using main_scalars(2,3) [OF assms(1)] assms(2) q
    by (simp add: pct_or_zero_Inr mean_or_zero_Inr)
qed

text \<open>A run in which every log file is missing.\<close>

theorem main_zero_total_zero_scalars_witness:
  "\<exists>r. main demo_config quiet_env = Inr r \<and> total_messages r = 0
       \<and> success_rate r = 0 \<and> avg_queue_time r = 0
       \<and> pct_or_zero (sent_count r) (total_messages r) = Inr 0
       \<and> mean_or_zero (queue_times r) = Inr 0"
proof -
  obtain r where r: "main demo_config quiet_env = Inr r" and z: "total_messages r = 0"
    using quiet_run by blast
  show ?thesis
    using r z main_zero_total_zero_scalars [OF r z] by blast
qed

subsection \<open>C3: missing and unreadable log files\<close>




subsection \<open>C4: pruning of the history\<close>

text \<open>
  C4, as amended. When \<open>save_historical_data\<close> completes having written the history, every
  key of the written document is at least the formatted cutoff date, today minus 30 days,
  in string order; so every retained key that is a date in the tool's own zero-padded
  format \<open>%Y-%m-%d\<close> is a date not earlier than today minus 30 days. (The cutoff is taken
  in the years of four digits, where the model of \<open>strftime\<close> is exact.)
\<close>

theorem saved_history_keys_within_30_days:
  assumes "save_historical_data today w doc ts = Inr (Some h')"
    and "(k, v) \<in> set h'"
    and "k = strftime_ymd d" and "valid_date d" and "year d < 10000"
    and "valid_date today" and "year today < 10000" and "1000 \<le> year (minus_days today 30)"
  shows "strftime_ymd (minus_days today 30) \<le> k \<and> date_le (minus_days today 30) d"
proof -
  let ?c = "minus_days today 30"
  have le: "strftime_ymd ?c \<le> strftime_ymd d"
    using save_historical_data_keys [OF assms(1) assms(2)] assms(3) by simp
  have vc: "valid_date ?c" using assms(6) by (rule valid_date_minus_days)
  have yc: "year ?c < 10000" using year_minus_days [of today 30] assms(7) by simp
  have "date_le ?c d"
    using le strftime_ymd_le [of ?c d] yc valid_date_fields [OF vc] assms(5)
      valid_date_fields [OF assms(4)]
    by simp
  then show ?thesis using le assms(3) by simp
qed

text \<open>
  The example history: the entry of 2026-09-30 is pruned on 2026-11-03, the entries of
  the last days and today's are kept.
\<close>

theorem saved_history_keys_within_30_days_witness:
  "save_historical_data demo_now WriteOk (Object demo_history) [(''sent_count'', 1)] =
     Inr (Some [(''2026-11-01'', [(''sent_count'', 100)]),
                (''2026-11-02'', [(''sent_count'', 110)]),
                (''2026-11-03'', [(''sent_count'', 1)])])
   \<and> ''2026-11-01'' = strftime_ymd \<lparr>year = 2026, month = 11, day = 1\<rparr>
   \<and> valid_date \<lparr>year = 2026, month = 11, day = 1\<rparr>
   \<and> valid_date demo_now
   \<and> 1000 \<le> year (minus_days demo_now 30)
   \<and> strftime_ymd (minus_days demo_now 30) \<le> ''2026-11-01''
   \<and> date_le (minus_days demo_now 30) \<lparr>year = 2026, month = 11, day = 1\<rparr>"
proof -
  let ?d = "\<lparr>year = 2026, month = 11, day = 1\<rparr>"
  let ?h = "[(''2026-11-01'', [(''sent_count'', 100 :: real)]),
            (''2026-11-02'', [(''sent_count'', 110)]),
            (''2026-11-03'', [(''sent_count'', 1)])]"
  have k: "''2026-11-01'' = strftime_ymd ?d" by (simp add: date_eval)
  have vd: "valid_date ?d" by (simp add: valid_date_def days_in_month_def)
  have vt: "valid_date demo_now" by (simp add: valid_date_def days_in_month_def demo_now_def)
  have m: "(''2026-11-01'', [(''sent_count'', 100 :: real)]) \<in> set ?h" by simp
  have yd: "year ?d < 10000" by simp
  have yt: "year demo_now < 10000" by (simp add: demo_now_def)
  have yc: "1000 \<le> year (minus_days demo_now 30)"
    by (simp add: demo_now_def minus_days_numeral pred_day_def days_in_month_def is_leap_def)
  show ?thesis
    using demo_save k vd vt yc saved_history_keys_within_30_days [OF demo_save m k vd yd vt yt yc]
    by blast
qed

text \<open>
  The claim as stated fails in two ways. The comparison of line 223 is one of strings, so
  a key that is not in the zero-padded format is kept or dropped by its characters: on
  2026-11-03, with the cutoff \<open>2026-10-04\<close>, the key \<open>2026-9-30\<close> of a day 34 days back is
  written again, since \<open>9\<close> is greater than \<open>1\<close>. And \<open>save_historical_data\<close> also completes
  when the write is denied: the \<open>PermissionError\<close> is swallowed, nothing is written, and the
  history file keeps whatever it held, pruned or not.
\<close>

theorem retained_key_older_than_30_days_counterexample:
  "save_historical_data demo_now WriteOk (Object unpadded_history) zero_stats =
     Inr (Some [(''2026-9-30'', [(''sent_count'', 7)]), (''2026-11-03'', zero_stats)])
   \<and> spec_key_date ''2026-9-30'' = Some \<lparr>year = 2026, month = 9, day = 30\<rparr>
   \<and> valid_date \<lparr>year = 2026, month = 9, day = 30\<rparr>
   \<and> minus_days demo_now 30 = \<lparr>year = 2026, month = 10, day = 4\<rparr>
   \<and> \<not> date_le (minus_days demo_now 30) \<lparr>year = 2026, month = 9, day = 30\<rparr>
   \<and> save_historical_data demo_now (WriteRaises PermissionError) (Object demo_history) zero_stats
       = Inr None"
proof -
  have c: "minus_days demo_now 30 = \<lparr>year = 2026, month = 10, day = 4\<rparr>"
    by (simp add: demo_now_def minus_days_numeral pred_day_def days_in_month_def is_leap_def)
  have cs: "strftime_ymd \<lparr>year = 2026, month = 10, day = 4\<rparr> = ''2026-10-04''"
    by (simp add: date_eval)
  have a: "save_historical_data demo_now WriteOk (Object unpadded_history) zero_stats =
             Inr (Some [(''2026-9-30'', [(''sent_count'', 7)]), (''2026-11-03'', zero_stats)])"
    by (simp add: save_historical_data_Object c cs demo_dates unpadded_history_def)
  have k: "spec_key_date ''2026-9-30'' = Some \<lparr>year = 2026, month = 9, day = 30\<rparr>"
    by (simp add: spec_key_date_def Let_def nat_of_digits_def digit_val_def is_digit_def)
  have v: "valid_date \<lparr>year = 2026, month = 9, day = 30\<rparr>"
    by (simp add: valid_date_def days_in_month_def)
  have n: "\<not> date_le \<lparr>year = 2026, month = 10, day = 4\<rparr> \<lparr>year = 2026, month = 9, day = 30\<rparr>"
    by (simp add: date_le_def)
  have p: "save_historical_data demo_now (WriteRaises PermissionError) (Object demo_history)
             zero_stats = Inr None"
    by (simp add: save_historical_data_Object)
  show ?thesis using a k v c n p by simp
qed

subsection \<open>C5: the direction of a trend\<close>

text \<open>
  C5. For every history and every metric for which \<open>calculate_trends\<close> produces a trend, the
  direction is up exactly when the percentage is above 5, down exactly when it is below -5,
  and flat otherwise; so a percentage of exactly 5 or exactly -5 is flat.
\<close>

theorem trend_direction_thresholds:
  assumes "(metric, t) \<in> set (calculate_trends history)"
  shows "(direction t = Up \<longleftrightarrow> 5 < percentage t)
       \<and> (direction t = Down \<longleftrightarrow> percentage t < - 5)
       \<and> (direction t = Flat \<longleftrightarrow> - 5 \<le> percentage t \<and> percentage t \<le> 5)"
proof -
  obtain vals where "trend_of vals = Some t"
    using calculate_trends_from_trend_of [OF assms] by blast
  then show ?thesis by (rule trend_of_direction)
qed

text \<open>
  The example history: sent counts 100 and 110 on the last two days give a percentage of
  exactly 5, which is flat.
\<close>

theorem trend_direction_thresholds_witness:
  "(''sent_count'', \<lparr>direction = Flat, percentage = 5, recent_avg = 105, baseline_avg = 100\<rparr>)
     \<in> set (calculate_trends demo_history)
   \<and> direction \<lparr>direction = Flat, percentage = 5, recent_avg = 105, baseline_avg = 100\<rparr> = Flat
   \<and> - 5 \<le> percentage \<lparr>direction = Flat, percentage = 5, recent_avg = 105, baseline_avg = 100\<rparr>
   \<and> percentage \<lparr>direction = Flat, percentage = 5, recent_avg = 105, baseline_avg = 100\<rparr> \<le> 5"
proof -
  let ?t = "\<lparr>direction = Flat, percentage = 5, recent_avg = 105, baseline_avg = 100\<rparr>"
  have m: "(''sent_count'', ?t) \<in> set (calculate_trends demo_history)"
    by (simp add: demo_trends)
  have f: "direction ?t = Flat" by simp
  show ?thesis using m f trend_direction_thresholds [OF m] by blast
qed

subsection \<open>C6: mail loops\<close>

text \<open>
  C6, as amended. For every sent line with a parsable sender, recipient and delay, one
  mail-loop entry is appended exactly when the delay is below 0.1 seconds and either the
  sender equals the recipient or both their domains are the internal domain \<open>eusd.org\<close>;
  otherwise none is appended. The entry is \<open>Self-loop: <sender>\<close> whenever the sender
  equals the recipient, also inside the internal domain, and
  \<open>Internal loop: <sender> -> <recipient>\<close> (with the arrow U+2192) when they differ.
\<close>

theorem mail_loop_entry:
  assumes "contains '' status=sent '' line"
    and "search_from line = Some sender"
    and "search_to line = Some recipient"
    and "search_delay line = Some g"
  shows "mail_loops (pass2_line sizes st line) =
           mail_loops st @
           (if py_float g < 1 / 10
               \<and> (sender = recipient
                    \<or> (get_domain sender = ''eusd.org'' \<and> get_domain recipient = ''eusd.org''))
            then [if sender = recipient then ''Self-loop: '' @ sender
                  else ''Internal loop: '' @ sender @ '' '' @ arrow @ '' '' @ recipient]
            else [])"
  using assms(1) pass2_sent_mail_loops [OF assms(4), of sizes st]
  by (auto simp add: pass2_line_def assms(2) assms(3) detect_loop_def)

text \<open>
  Scenario C of the specification: a sent line from \<open>a@eusd.org\<close> to \<open>b@eusd.org\<close> with a
  delay of 0.05 seconds.
\<close>

theorem mail_loop_entry_witness:
  "contains '' status=sent '' sent_line
   \<and> search_from sent_line = Some ''a@eusd.org''
   \<and> search_to sent_line = Some ''b@eusd.org''
   \<and> search_delay sent_line = Some ''0.05''
   \<and> mail_loops (pass2_line [] accum0 sent_line)
       = [''Internal loop: a@eusd.org '' @ arrow @ '' b@eusd.org'']"
proof -
  note t = mail_loop_entry [OF sent_line_parse(1) sent_line_parse(2) sent_line_parse(3)
      sent_line_parse(4), of "[]" accum0]
  have "mail_loops (pass2_line [] accum0 sent_line)
        = [''Internal loop: a@eusd.org '' @ arrow @ '' b@eusd.org'']"
    using t by (simp add: py_float_005 get_domain_demo accum0_def)
  then show ?thesis using sent_line_parse by simp
qed

text \<open>
  The claim as stated fails where sender and recipient are the same address of the
  internal domain: the delay is below 0.1 seconds, both domains are the internal domain,
  and the entry appended is the self-loop entry, not the internal-loop entry.
\<close>

theorem internal_loop_form_counterexample:
  "contains '' status=sent '' self_line
   \<and> search_from self_line = Some ''a@eusd.org''
   \<and> search_to self_line = Some ''a@eusd.org''
   \<and> search_delay self_line = Some ''0.05''
   \<and> py_float ''0.05'' < 1 / 10
   \<and> get_domain ''a@eusd.org'' = ''eusd.org''
   \<and> mail_loops (pass2_line [] accum0 self_line) = [''Self-loop: a@eusd.org'']
   \<and> mail_loops (pass2_line [] accum0 self_line)
       \<noteq> [''Internal loop: a@eusd.org '' @ arrow @ '' a@eusd.org'']"
proof -
  have "mail_loops (pass2_line [] accum0 self_line) = [''Self-loop: a@eusd.org'']"
    by (simp add: pass2_line_def self_line_parse pass2_sent_mail_loops [OF self_line_parse(4)]
        detect_loop_def py_float_005 accum0_def)
  then show ?thesis
    using self_line_parse by (simp add: py_float_005 get_domain_demo)
qed

subsection \<open>C7: compromised-sender candidates\<close>

text \<open>
  C7. The source flags a sender when its count exceeds the threshold and the text
  \<open>@eusd.org\<close> occurs anywhere in the address. A run with 51 sent lines from
  \<open>mallory@eusd.org.example.net\<close> flags that sender, whose domain, as \<open>get_domain\<close> gives
  it, is \<open>eusd.org.example.net\<close> and not the internal domain.
\<close>

theorem compromised_flags_foreign_domain:
  "get_domain ''mallory@eusd.org.example.net'' = ''eusd.org.example.net''
   \<and> get_domain ''mallory@eusd.org.example.net'' \<noteq> ''eusd.org''
   \<and> (\<exists>r. main demo_config (spam_env 51) = Inr r
            \<and> total_messages r = 51
            \<and> compromised_candidates r = [''mallory@eusd.org.example.net''])"
proof -
  have d: "get_domain ''mallory@eusd.org.example.net'' = ''eusd.org.example.net''"
    by (simp add: get_domain_def)
  have c: "contains ''@eusd.org'' ''mallory@eusd.org.example.net''" by simp
  obtain r where m: "main demo_config (spam_env 51) = Inr r" and t: "total_messages r = 51"
    and cc: "compromised_candidates r =
           compromised (max 50 (real (51 :: nat) * (5 / 100)))
             (if (51 :: nat) = 0 then [] else [(''mallory@eusd.org.example.net'', 51)])"
    using spam_run [of 51] by blast
  have "compromised_candidates r = [''mallory@eusd.org.example.net'']"
    unfolding cc using c by (simp add: compromised_def)
  then show ?thesis using d m t by simp
qed

subsection \<open>C8: an empty list of log paths\<close>




subsection \<open>C9: the list of raw error lines\<close>

text \<open>
  C9, as amended. The list of raw error lines has no bound that is independent of the
  input: at the end of every run it holds one entry for each deferred and each bounced or
  rejected line.
\<close>

theorem errors_one_per_deferred_or_bounced:
  assumes "main cfg e = Inr r"
  shows "length (errors r) = deferred_count r + bounced_count r"
  using assms by (rule main_errors_length)

text \<open>The example run keeps the deferred and the bounced line.\<close>

theorem errors_one_per_deferred_or_bounced_witness:
  "\<exists>r. main demo_config demo_env = Inr r
       \<and> errors r = [deferred_line, bounced_line]
       \<and> length (errors r) = deferred_count r + bounced_count r"
proof -
  obtain r where r: "main demo_config demo_env = Inr r"
    and c: "errors r = [deferred_line, bounced_line]"
    using demo_run by blast
  show ?thesis using r c errors_one_per_deferred_or_bounced [OF r] by blast
qed

text \<open>
  The claim as stated fails: a log of \<open>n\<close> deferred lines leaves \<open>n\<close> entries in the
  list, so no bound holds for every run.
\<close>

theorem errors_bound_counterexample:
  "\<not> (\<exists>B. \<forall>n r. main demo_config (flood_env n) = Inr r \<longrightarrow> length (errors r) \<le> B)"
proof
  assume "\<exists>B. \<forall>n r. main demo_config (flood_env n) = Inr r \<longrightarrow> length (errors r) \<le> B"
  then obtain B where B: "\<And>n r. main demo_config (flood_env n) = Inr r \<Longrightarrow> length (errors r) \<le> B"
    by blast
  obtain r where "main demo_config (flood_env (Suc B)) = Inr r" and "length (errors r) = Suc B"
    using flood_run [of "Suc B"] by blast
  then show False using B [of "Suc B" r] by simp
qed

subsection \<open>C10: the unused threshold\<close>

text \<open>
  C10. The threshold \<open>min_hourly_volume\<close> is read nowhere: two configurations that differ
  only in it give the same result of the run, that is the same alert list, the same snapshot
  \<open>today_stats\<close> and the same history written. No rule of the alert evaluator compares an
  hour's volume with this threshold, so no alert is raised on account of an hour being below
  it.
\<close>

theorem min_hourly_volume_ignored:
  "main (cfg\<lparr>ALERT_THRESHOLDS := (ALERT_THRESHOLDS cfg)\<lparr>min_hourly_volume := v\<rparr>\<rparr>) e = main cfg e"
proof -
  have "summarise (cfg\<lparr>ALERT_THRESHOLDS := (ALERT_THRESHOLDS cfg)\<lparr>min_hourly_volume := v\<rparr>\<rparr>) e h ix st
          = summarise cfg e h ix st" for h ix st
    by (cases "HIGH_VOLUME_MODE cfg") (simp_all add: summarise_def Let_def high_volume_alerts_def)
  then show ?thesis by (simp add: main_def)
qed

text \<open>The example run with the threshold raised from 10 to 1000.\<close>

theorem min_hourly_volume_ignored_witness:
  "main (demo_config\<lparr>ALERT_THRESHOLDS := (ALERT_THRESHOLDS demo_config)\<lparr>min_hourly_volume := 1000\<rparr>\<rparr>) demo_env
     = main demo_config demo_env"
  by (rule min_hourly_volume_ignored)

end
